theory Spec2Isabelle
  imports Complex_Main "HOL-Library.Monad_Syntax" "HOL-Library.Log_Nat"
begin

section \<open>Exploded-view window assembly: layout, interpolation, timeline\<close>

text \<open>
  The repository renders an exploded view of a window unit. A list of part
  descriptors is built once (\<^verbatim>\<open>WindowScene\<close>), a progress value in
  \<^verbatim>\<open>progressRef\<close> is advanced by the animation loop of \<^verbatim>\<open>App\<close>, and
  every frame each \<^verbatim>\<open>AnimatedPart\<close> places its mesh between its exploded and
  its assembled position.

  A JavaScript \<^verbatim>\<open>number\<close> is an IEEE binary64 value. In the part list and in
  the interpolation every arithmetic operation of the source is modelled as the
  exact operation on the reals followed by rounding to the nearest binary64
  value, ties to even (\<open>rnd64\<close>), and every decimal literal as the rounding
  of its decimal value. The exponent range is taken as unbounded: overflow to
  an infinity, subnormal numbers and NaN are outside the model, and so is a
  part with duration 0, for which JavaScript computes an infinity or NaN.
  \<^verbatim>\<open>Math.pow(b, 3)\<close>, whose last digit ECMAScript leaves to the implementation,
  is modelled as the correctly rounded cube. The handlers of \<^verbatim>\<open>App\<close> are
  modelled with exact arithmetic.
\<close>

subsection \<open>Binary64 arithmetic\<close>

text \<open>Rounding of a real to the nearest integer, a tie to the even one.\<close>

definition roundEven :: "real \<Rightarrow> int" where
  "roundEven y =
     (let f = \<lfloor>y\<rfloor>; r = y - of_int f
      in if r < 1 / 2 then f else if 1 / 2 < r then f + 1
         else if even f then f else f + 1)"

text \<open>The binary exponent \<open>e\<close> of a non-zero real, \<open>2 powi e \<le> \<bar>x\<bar> < 2 powi (e + 1)\<close>,
  computed from the bit length of the integer part of \<open>\<bar>x\<bar>\<close> or of its inverse.\<close>

definition expo :: "real \<Rightarrow> int" where
  "expo x = (if 1 \<le> \<bar>x\<bar> then bitlen \<lfloor>\<bar>x\<bar>\<rfloor> - 1 else - bitlen (\<lceil>1 / \<bar>x\<bar>\<rceil> - 1))"

text \<open>The spacing of the binary64 values in the binade of \<open>x\<close>: 53 significant bits.\<close>

definition ulp :: "real \<Rightarrow> real" where
  "ulp x = 2 powi (expo x - 52)"

definition rnd64 :: "real \<Rightarrow> real" where
  "rnd64 x = (if x = 0 then 0 else of_int (roundEven (x / ulp x)) * ulp x)"

definition isDouble :: "real \<Rightarrow> bool" where
  "isDouble x = (rnd64 x = x)"

text \<open>The operators \<^verbatim>\<open>+\<close>, \<^verbatim>\<open>-\<close>, \<^verbatim>\<open>*\<close>, \<^verbatim>\<open>/\<close> and \<^verbatim>\<open>Math.pow(b, 3)\<close> on
  binary64 values.\<close>

definition fadd :: "real \<Rightarrow> real \<Rightarrow> real" where "fadd a b = rnd64 (a + b)"
definition fsub :: "real \<Rightarrow> real \<Rightarrow> real" where "fsub a b = rnd64 (a - b)"
definition fmul :: "real \<Rightarrow> real \<Rightarrow> real" where "fmul a b = rnd64 (a * b)"
definition fdiv :: "real \<Rightarrow> real \<Rightarrow> real" where "fdiv a b = rnd64 (a / b)"
definition pow3 :: "real \<Rightarrow> real" where "pow3 b = rnd64 (b ^ 3)"

subsection \<open>Part descriptors (types.ts)\<close>

type_synonym vec3 = "real \<times> real \<times> real"

datatype PartType = box | plane | custom

record PartConfig =
  id_part :: string
  name :: string
  type_part :: PartType
  color :: string
  args :: vec3
  assembledPos :: vec3
  explodedPos :: vec3
  rotation :: "vec3 option"
  delay :: real
  duration :: real
  opacity :: "real option"
  metalness :: "real option"
  roughness :: "real option"

subsection \<open>The per-frame interpolation (AnimatedPart.tsx)\<close>

text \<open>\<^verbatim>\<open>MathUtils.clamp(value, min, max)\<close> of three.js is
  \<^verbatim>\<open>Math.max(min, Math.min(max, value))\<close>; it selects one of its arguments and
  does not round.\<close>

definition clamp :: "real \<Rightarrow> real \<Rightarrow> real \<Rightarrow> real" where
  "clamp v lo hi = max lo (min hi v)"

text \<open>\<^verbatim>\<open>Vector3.lerpVectors(v1, v2, alpha)\<close> of three.js sets each component to
  \<^verbatim>\<open>v1.x + (v2.x - v1.x) * alpha\<close>: a subtraction, a multiplication and an
  addition, each rounded.\<close>

definition lerp :: "real \<Rightarrow> real \<Rightarrow> real \<Rightarrow> real" where
  "lerp v1 v2 alpha = fadd v1 (fmul (fsub v2 v1) alpha)"

fun lerpVectors :: "vec3 \<Rightarrow> vec3 \<Rightarrow> real \<Rightarrow> vec3" where
  "lerpVectors (x1, y1, z1) (x2, y2, z2) alpha =
     (lerp x1 x2 alpha, lerp y1 y2 alpha, lerp z1 z2 alpha)"

text \<open>Lines 25-26: the local progress of a part, clamped to the unit interval.\<close>

definition localP :: "PartConfig \<Rightarrow> real \<Rightarrow> real" where
  "localP config globalP = clamp (fdiv (fsub globalP (delay config)) (duration config)) 0 1"

text \<open>Line 29: the cubic easing, evaluated from left to right:
  \<^verbatim>\<open>((4 * localP) * localP) * localP\<close> and
  \<^verbatim>\<open>1 - (Math.pow((-2 * localP) + 2, 3) / 2)\<close>.\<close>

definition easing :: "real \<Rightarrow> real" where
  "easing lp =
     (if lp < 0.5 then fmul (fmul (fmul 4 lp) lp) lp
      else fsub 1 (fdiv (pow3 (fadd (fmul (- 2) lp) 2)) 2))"

text \<open>Lines 23-31: the position written into the mesh for a global progress.\<close>

definition framePosition :: "PartConfig \<Rightarrow> real \<Rightarrow> vec3" where
  "framePosition config globalP =
     (let startVec = explodedPos config;
          endVec = assembledPos config;
          t = easing (localP config globalP)
      in lerpVectors startVec endVec t)"

text \<open>The frame callback: without a mounted mesh (\<open>None\<close>) it returns at once,
  otherwise it overwrites the mesh position.\<close>

definition useFrame :: "PartConfig \<Rightarrow> real \<Rightarrow> vec3 option \<Rightarrow> vec3 option" where
  "useFrame config globalP mesh =
     (case mesh of None \<Rightarrow> None | Some _ \<Rightarrow> Some (framePosition config globalP))"

subsection \<open>The animation state and its handlers (App.tsx)\<close>

text \<open>
  The React state (\<^verbatim>\<open>isPlaying\<close>, \<^verbatim>\<open>uiProgress\<close>, \<^verbatim>\<open>speed\<close>) and the refs
  of \<^verbatim>\<open>App\<close>. \<^verbatim>\<open>lastTimeRef\<close> is \<open>None\<close> when it holds \<^verbatim>\<open>undefined\<close>.
  \<^verbatim>\<open>requestRef\<close> is abstracted to whether a frame callback requested with
  \<^verbatim>\<open>requestAnimationFrame\<close> is pending.
\<close>

record AppState =
  isPlaying :: bool
  uiProgress :: real
  speed :: real
  progressRef :: real
  requestRef :: bool
  lastTimeRef :: "real option"

definition initialState :: AppState where
  "initialState =
     \<lparr>isPlaying = False, uiProgress = 0, speed = 0.8, progressRef = 0,
      requestRef = False, lastTimeRef = None\<rparr>"

definition handleSeek :: "real \<Rightarrow> AppState \<Rightarrow> AppState" where
  "handleSeek val s = s\<lparr>isPlaying := False, uiProgress := val, progressRef := val / 100\<rparr>"

definition handleReset :: "AppState \<Rightarrow> AppState" where
  "handleReset s = s\<lparr>isPlaying := False, uiProgress := 0, progressRef := 0\<rparr>"

text \<open>Lines 32-57: one call of the frame callback with the timestamp \<open>time\<close>
  (milliseconds). The \<^verbatim>\<open>else\<close> branch returns before the timestamp is stored
  and before another frame is requested.\<close>

definition animate :: "real \<Rightarrow> AppState \<Rightarrow> AppState" where
  "animate time s =
     (case lastTimeRef s of
        Some lastTime \<Rightarrow>
          (let deltaTime = (time - lastTime) / 1000;
               increment = (deltaTime * speed s) / 3
           in if progressRef s < 1
              then (let p = min (progressRef s + increment) 1
                    in s\<lparr>progressRef := p, uiProgress := p * 100,
                         lastTimeRef := Some time, requestRef := True\<rparr>)
              else s\<lparr>isPlaying := False, progressRef := 1, uiProgress := 100,
                     requestRef := False\<rparr>)
      | None \<Rightarrow> s\<lparr>lastTimeRef := Some time, requestRef := True\<rparr>)"

text \<open>Lines 59-73: the effect that runs when \<^verbatim>\<open>isPlaying\<close> has changed; \<open>now\<close>
  is the value of \<^verbatim>\<open>performance.now()\<close>.\<close>

definition playingEffect :: "real \<Rightarrow> AppState \<Rightarrow> AppState" where
  "playingEffect now s =
     (if isPlaying s then s\<lparr>lastTimeRef := Some now, requestRef := True\<rparr>
      else s\<lparr>requestRef := False, lastTimeRef := None\<rparr>)"

definition handlePlayPause :: "AppState \<Rightarrow> AppState" where
  "handlePlayPause s =
     (let s1 = (if \<not> isPlaying s \<and> progressRef s \<ge> 1
                then s\<lparr>progressRef := 0, uiProgress := 0\<rparr> else s)
      in s1\<lparr>isPlaying := \<not> isPlaying s\<rparr>)"

text \<open>A run of the animation loop: the states after each of a list of frame
  timestamps, in order.\<close>

fun animateAll :: "real list \<Rightarrow> AppState \<Rightarrow> AppState list" where
  "animateAll [] s = []"
| "animateAll (time # rest) s = animate time s # animateAll rest (animate time s)"

subsection \<open>The part list (WindowScene.tsx)\<close>

definition COLORS_STEEL_STRUCT :: string where "COLORS_STEEL_STRUCT = ''#71717a''"
definition COLORS_YELLOW_INSULATION :: string where "COLORS_YELLOW_INSULATION = ''#fde047''"
definition COLORS_TIMBER_FRAME :: string where "COLORS_TIMBER_FRAME = ''#9a3412''"
definition COLORS_EXTERIOR_CLADDING :: string where "COLORS_EXTERIOR_CLADDING = ''#18181b''"
definition COLORS_GLASS :: string where "COLORS_GLASS = ''#a5f3fc''"

text \<open>Every object literal pushed onto the list has \<^verbatim>\<open>type: 'box'\<close> and no
  rotation; only the glass sets the optional surface fields.\<close>

definition boxPart ::
  "string \<Rightarrow> string \<Rightarrow> string \<Rightarrow> vec3 \<Rightarrow> vec3 \<Rightarrow> vec3 \<Rightarrow> real \<Rightarrow> real \<Rightarrow> PartConfig" where
  "boxPart i n c a asm ex dl du =
     \<lparr>id_part = i, name = n, type_part = box, color = c, args = a,
      assembledPos = asm, explodedPos = ex, rotation = None,
      delay = dl, duration = du, opacity = None, metalness = None, roughness = None\<rparr>"

text \<open>Lines 71-77: dimensions and explosion distances.\<close>

definition BoxW :: real where "BoxW = rnd64 2.8"
definition BoxH :: real where "BoxH = rnd64 1.9"
definition Depth :: real where "Depth = rnd64 0.8"
definition BeamSize :: real where "BeamSize = rnd64 0.14"
definition ExplodeZ :: real where "ExplodeZ = rnd64 5.0"
definition ExplodeXY :: real where "ExplodeXY = rnd64 2.5"

text \<open>Lines 80-104: the wall rails.\<close>

definition railH :: real where "railH = fadd BoxH (rnd64 0.6)"
definition railX :: real where "railX = fsub (fdiv BoxW 2) (fdiv BeamSize 2)"

definition railParts :: "PartConfig list" where
  "railParts =
     [boxPart ''rail-left'' ''Wall Rail Left'' COLORS_STEEL_STRUCT
        (BeamSize, railH, rnd64 0.1) (- railX, 0, 0) (- railX, 0, 0) 0 (rnd64 0.1),
      boxPart ''rail-right'' ''Wall Rail Right'' COLORS_STEEL_STRUCT
        (BeamSize, railH, rnd64 0.1) (railX, 0, 0) (railX, 0, 0) 0 (rnd64 0.1)]"

text \<open>Lines 109-135: the four steel beams at the corners of the box.\<close>

definition beamLen :: real where "beamLen = Depth"
definition beamZ :: real where "beamZ = fdiv Depth 2"
definition beamY_Top :: real where "beamY_Top = fsub (fdiv BoxH 2) (fdiv BeamSize 2)"
definition beamY_Bot :: real where "beamY_Bot = - (fsub (fdiv BoxH 2) (fdiv BeamSize 2))"
definition beamX_Left :: real where "beamX_Left = - (fsub (fdiv BoxW 2) (fdiv BeamSize 2))"
definition beamX_Right :: real where "beamX_Right = (fsub (fdiv BoxW 2) (fdiv BeamSize 2))"

definition beams :: "(string \<times> real \<times> real) list" where
  "beams =
     [(''beam-tl'', beamX_Left, beamY_Top),
      (''beam-tr'', beamX_Right, beamY_Top),
      (''beam-bl'', beamX_Left, beamY_Bot),
      (''beam-br'', beamX_Right, beamY_Bot)]"

fun beamPart :: "string \<times> real \<times> real \<Rightarrow> PartConfig" where
  "beamPart (b_id, b_x, b_y) =
     boxPart b_id ''Steel Beam'' COLORS_STEEL_STRUCT
       (BeamSize, BeamSize, beamLen) (b_x, b_y, beamZ) (b_x, b_y, fmul ExplodeZ (rnd64 0.2))
       (rnd64 0.1) (rnd64 0.4)"

text \<open>Lines 143-198: the insulation panels as first pushed.\<close>

definition innerW :: real where "innerW = fsub BoxW (fmul BeamSize 2)"
definition innerH :: real where "innerH = fsub BoxH (fmul BeamSize 2)"

definition insulationParts :: "PartConfig list" where
  "insulationParts =
     [boxPart ''yellow-top'' ''Insulation Top'' COLORS_YELLOW_INSULATION
        (innerW, BeamSize, Depth) (0, beamY_Top, beamZ)
        (0, fadd beamY_Top (fdiv ExplodeXY 2), fmul ExplodeZ (rnd64 0.5))
        (rnd64 0.3) (rnd64 0.5),
      boxPart ''yellow-bot'' ''Insulation Sill'' COLORS_YELLOW_INSULATION
        (innerW, BeamSize, Depth) (0, beamY_Bot, beamZ)
        (0, fsub beamY_Bot (fdiv ExplodeXY 2), fmul ExplodeZ (rnd64 0.5))
        (rnd64 0.3) (rnd64 0.5),
      boxPart ''yellow-left'' ''Insulation Left'' COLORS_YELLOW_INSULATION
        (BeamSize, innerH, Depth) (beamX_Left, 0, beamZ)
        (fsub beamX_Left (fdiv ExplodeXY 2), 0, fmul ExplodeZ (rnd64 0.5))
        (rnd64 0.35) (rnd64 0.5),
      boxPart ''yellow-right'' ''Insulation Right'' COLORS_YELLOW_INSULATION
        (BeamSize, innerH, Depth) (beamX_Right, 0, beamZ)
        (fadd beamX_Right (fdiv ExplodeXY 2), 0, fmul ExplodeZ (rnd64 0.5))
        (rnd64 0.35) (rnd64 0.5)]"

text \<open>Lines 245-260 overwrite fields of entries already in the list:
  \<^verbatim>\<open>list.find(p => p.id === i)!.args = v\<close> changes the first entry with that id.
  When no entry has the id, \<^verbatim>\<open>find\<close> returns \<^verbatim>\<open>undefined\<close> and the
  assignment throws; that is \<open>None\<close>.\<close>

fun assignFound ::
  "string \<Rightarrow> (PartConfig \<Rightarrow> PartConfig) \<Rightarrow> PartConfig list \<Rightarrow> PartConfig list option" where
  "assignFound i f [] = None"
| "assignFound i f (p # ps) =
     (if id_part p = i then Some (f p # ps)
      else map_option ((#) p) (assignFound i f ps))"

definition refinePanels :: "PartConfig list \<Rightarrow> PartConfig list option" where
  "refinePanels list0 = do {
     l1 \<leftarrow> assignFound ''yellow-top'' (\<lambda>p. p\<lparr>args := (innerW, rnd64 0.05, Depth)\<rparr>) list0;
     l2 \<leftarrow> assignFound ''yellow-top''
            (\<lambda>p. p\<lparr>assembledPos :=
                   (0, fadd (fsub beamY_Top (fdiv BeamSize 2)) (rnd64 0.025), beamZ)\<rparr>) l1;
     l3 \<leftarrow> assignFound ''yellow-bot'' (\<lambda>p. p\<lparr>args := (innerW, rnd64 0.15, Depth)\<rparr>) l2;
     l4 \<leftarrow> assignFound ''yellow-bot''
            (\<lambda>p. p\<lparr>assembledPos :=
                   (0, fadd (fsub (fadd beamY_Bot (fdiv BeamSize 2)) (rnd64 0.075)) (rnd64 0.15),
                    beamZ)\<rparr>) l3;
     l5 \<leftarrow> assignFound ''yellow-bot'' (\<lambda>p. p\<lparr>assembledPos := (0, beamY_Bot, beamZ)\<rparr>) l4;
     l6 \<leftarrow> assignFound ''yellow-bot'' (\<lambda>p. p\<lparr>args := (innerW, BeamSize, Depth)\<rparr>) l5;
     l7 \<leftarrow> assignFound ''yellow-left'' (\<lambda>p. p\<lparr>args := (rnd64 0.05, innerH, Depth)\<rparr>) l6;
     l8 \<leftarrow> assignFound ''yellow-left''
            (\<lambda>p. p\<lparr>assembledPos :=
                   (fsub (fadd beamX_Left (fdiv BeamSize 2)) (rnd64 0.025), 0, beamZ)\<rparr>) l7;
     l9 \<leftarrow> assignFound ''yellow-right'' (\<lambda>p. p\<lparr>args := (rnd64 0.05, innerH, Depth)\<rparr>) l8;
     assignFound ''yellow-right''
            (\<lambda>p. p\<lparr>assembledPos :=
                   (fadd (fsub beamX_Right (fdiv BeamSize 2)) (rnd64 0.025), 0, beamZ)\<rparr>) l9
   }"

text \<open>Lines 265-314: the outer cladding.\<close>

definition cladThick :: real where "cladThick = rnd64 0.03"

definition claddingParts :: "PartConfig list" where
  "claddingParts =
     [boxPart ''clad-top'' ''Cladding Top'' COLORS_EXTERIOR_CLADDING
        (BoxW, cladThick, Depth)
        (0, fadd (fadd beamY_Top (fdiv BeamSize 2)) (fdiv cladThick 2), beamZ)
        (0, fadd beamY_Top ExplodeXY, ExplodeZ) (rnd64 0.6) (rnd64 0.4),
      boxPart ''clad-bot'' ''Cladding Bot'' COLORS_EXTERIOR_CLADDING
        (BoxW, cladThick, Depth)
        (0, fsub (fsub beamY_Bot (fdiv BeamSize 2)) (fdiv cladThick 2), beamZ)
        (0, fsub beamY_Bot ExplodeXY, ExplodeZ) (rnd64 0.6) (rnd64 0.4),
      boxPart ''clad-left'' ''Cladding Left'' COLORS_EXTERIOR_CLADDING
        (cladThick, fadd BoxH (rnd64 0.1), Depth)
        (fsub (fsub beamX_Left (fdiv BeamSize 2)) (fdiv cladThick 2), 0, beamZ)
        (fsub beamX_Left ExplodeXY, 0, ExplodeZ) (rnd64 0.65) (rnd64 0.4),
      boxPart ''clad-right'' ''Cladding Right'' COLORS_EXTERIOR_CLADDING
        (cladThick, fadd BoxH (rnd64 0.1), Depth)
        (fadd (fadd beamX_Right (fdiv BeamSize 2)) (fdiv cladThick 2), 0, beamZ)
        (fadd beamX_Right ExplodeXY, 0, ExplodeZ) (rnd64 0.65) (rnd64 0.4)]"

text \<open>Lines 319-380: the timber window frame and the glass.\<close>

definition winFrameThick :: real where "winFrameThick = rnd64 0.12"
definition winFrameDepth :: real where "winFrameDepth = rnd64 0.15"
definition winZ :: real where "winZ = rnd64 0.3"
definition winW :: real where "winW = fsub innerW (rnd64 0.1)"
definition winH :: real where "winH = fsub innerH (rnd64 0.1)"

definition windowParts :: "PartConfig list" where
  "windowParts =
     [boxPart ''win-top'' ''Window Top'' COLORS_TIMBER_FRAME
        (winW, winFrameThick, winFrameDepth)
        (0, fsub (fdiv winH 2) (fdiv winFrameThick 2), winZ)
        (0, fdiv winH 2, fmul ExplodeZ (rnd64 0.8)) (rnd64 0.45) (rnd64 0.5),
      boxPart ''win-bot'' ''Window Bot'' COLORS_TIMBER_FRAME
        (winW, winFrameThick, winFrameDepth)
        (0, - (fsub (fdiv winH 2) (fdiv winFrameThick 2)), winZ)
        (0, fdiv (- winH) 2, fmul ExplodeZ (rnd64 0.8)) (rnd64 0.45) (rnd64 0.5),
      boxPart ''win-left'' ''Window Left'' COLORS_TIMBER_FRAME
        (winFrameThick, fsub winH (fmul 2 winFrameThick), winFrameDepth)
        (- (fsub (fdiv winW 2) (fdiv winFrameThick 2)), 0, winZ)
        (fdiv (- winW) 2, 0, fmul ExplodeZ (rnd64 0.8)) (rnd64 0.5) (rnd64 0.5),
      boxPart ''win-right'' ''Window Right'' COLORS_TIMBER_FRAME
        (winFrameThick, fsub winH (fmul 2 winFrameThick), winFrameDepth)
        ((fsub (fdiv winW 2) (fdiv winFrameThick 2)), 0, winZ)
        (fdiv winW 2, 0, fmul ExplodeZ (rnd64 0.8)) (rnd64 0.5) (rnd64 0.5),
      (boxPart ''glass'' ''Glass'' COLORS_GLASS
        (fadd (fsub winW (fmul 2 winFrameThick)) (rnd64 0.05),
         fadd (fsub winH (fmul 2 winFrameThick)) (rnd64 0.05), rnd64 0.02)
        (0, 0, winZ) (0, 0, fmul ExplodeZ (rnd64 0.9)) (rnd64 0.55) (rnd64 0.5))
        \<lparr>opacity := Some (rnd64 0.3), metalness := Some (rnd64 0.9),
         roughness := Some (rnd64 0.05)\<rparr>]"

text \<open>Lines 66-383: the list in the order the source builds it.\<close>

definition parts :: "PartConfig list option" where
  "parts = do {
     refined \<leftarrow> refinePanels (railParts @ map beamPart beams @ insulationParts);
     Some (refined @ claddingParts @ windowParts)
   }"

text \<open>The first entry with a given id, as \<^verbatim>\<open>Array.prototype.find\<close> returns it.\<close>

definition findPart :: "string \<Rightarrow> PartConfig list \<Rightarrow> PartConfig option" where
  "findPart i ps = find (\<lambda>p. id_part p = i) ps"

subsection \<open>Boxes in space\<close>

text \<open>A part is drawn as a \<^verbatim>\<open>boxGeometry\<close> of extents \<^verbatim>\<open>args\<close> centred at the
  mesh position, so along each axis it occupies the interval from the centre
  minus half the extent to the centre plus half the extent. These face
  coordinates are exact real functions of the binary64 values the code holds.\<close>

datatype axis = X | Y | Z

fun coord :: "axis \<Rightarrow> vec3 \<Rightarrow> real" where
  "coord X (x, y, z) = x"
| "coord Y (x, y, z) = y"
| "coord Z (x, y, z) = z"









subsection \<open>Notions used by the properties\<close>

text \<open>\<open>x\<close> lies in the closed interval spanned by \<open>a\<close> and \<open>b\<close>,
  whichever of the two is the smaller.\<close>

definition between :: "real \<Rightarrow> real \<Rightarrow> real \<Rightarrow> bool" where
  "between a b x = (min a b \<le> x \<and> x \<le> max a b)"

text \<open>All three components are binary64 values.\<close>

definition isDoubleVec :: "vec3 \<Rightarrow> bool" where
  "isDoubleVec v = (isDouble (coord X v) \<and> isDouble (coord Y v) \<and> isDouble (coord Z v))"

text \<open>Every elapsed time that a run of the animation loop computes from the
  timestamps \<open>ts\<close> (\<^verbatim>\<open>deltaTime\<close>, line 34) is non-negative.\<close>

fun nonNegativeElapsed :: "AppState \<Rightarrow> real list \<Rightarrow> bool" where
  "nonNegativeElapsed s [] = True"
| "nonNegativeElapsed s (time # rest) =
     ((case lastTimeRef s of None \<Rightarrow> True | Some lastTime \<Rightarrow> 0 \<le> (time - lastTime) / 1000)
      \<and> nonNegativeElapsed (animate time s) rest)"

text \<open>The four insulation entries as the overwrites of lines 245-260 leave them
  (\<open>parts_value\<close> below proves that this is what the source computes): the
  top panel and the side panels are thinned to 0.05 and moved onto the inner
  faces of the beams, the sill ends with the values it was pushed with.\<close>

definition refinedInsulation :: "PartConfig list" where
  "refinedInsulation =
     [boxPart ''yellow-top'' ''Insulation Top'' COLORS_YELLOW_INSULATION
        (innerW, rnd64 0.05, Depth)
        (0, fadd (fsub beamY_Top (fdiv BeamSize 2)) (rnd64 0.025), beamZ)
        (0, fadd beamY_Top (fdiv ExplodeXY 2), fmul ExplodeZ (rnd64 0.5))
        (rnd64 0.3) (rnd64 0.5),
      boxPart ''yellow-bot'' ''Insulation Sill'' COLORS_YELLOW_INSULATION
        (innerW, BeamSize, Depth) (0, beamY_Bot, beamZ)
        (0, fsub beamY_Bot (fdiv ExplodeXY 2), fmul ExplodeZ (rnd64 0.5))
        (rnd64 0.3) (rnd64 0.5),
      boxPart ''yellow-left'' ''Insulation Left'' COLORS_YELLOW_INSULATION
        (rnd64 0.05, innerH, Depth)
        (fsub (fadd beamX_Left (fdiv BeamSize 2)) (rnd64 0.025), 0, beamZ)
        (fsub beamX_Left (fdiv ExplodeXY 2), 0, fmul ExplodeZ (rnd64 0.5))
        (rnd64 0.35) (rnd64 0.5),
      boxPart ''yellow-right'' ''Insulation Right'' COLORS_YELLOW_INSULATION
        (rnd64 0.05, innerH, Depth)
        (fadd (fsub beamX_Right (fdiv BeamSize 2)) (rnd64 0.025), 0, beamZ)
        (fadd beamX_Right (fdiv ExplodeXY 2), 0, fmul ExplodeZ (rnd64 0.5))
        (rnd64 0.35) (rnd64 0.5)]"


text \<open>The state right after Play has been pressed in the initial state and the
  effect has run at \<^verbatim>\<open>performance.now() = 1000\<close>.\<close>

definition playingState :: AppState where
  "playingState = playingEffect 1000 (handlePlayPause initialState)"

section \<open>Properties\<close>

subsection \<open>Rounding to binary64\<close>

text \<open>The rounding is monotone, leaves binary64 values as they are, and its
  relative error is at most \<open>2 powi (- 53)\<close>.\<close>

lemma roundEven_cases: "roundEven y = \<lfloor>y\<rfloor> \<or> roundEven y = \<lfloor>y\<rfloor> + 1"
  by (simp add: roundEven_def Let_def)

lemma roundEven_of_int: "roundEven (of_int n) = n"
  by (simp add: roundEven_def)

lemma roundEven_error: "\<bar>of_int (roundEven y) - y\<bar> \<le> 1 / 2"
proof -
  have "of_int \<lfloor>y\<rfloor> \<le> y" "y < of_int \<lfloor>y\<rfloor> + 1" by linarith+
  then show ?thesis by (auto simp add: roundEven_def Let_def)
qed

lemma roundEven_mono: "a \<le> b \<Longrightarrow> roundEven a \<le> roundEven b"
proof -
  assume ab: "a \<le> b"
  then have fl: "\<lfloor>a\<rfloor> \<le> \<lfloor>b\<rfloor>" by (rule floor_mono)
  show ?thesis
  proof (cases "\<lfloor>a\<rfloor> = \<lfloor>b\<rfloor>")
    case True
    with ab show ?thesis by (auto simp add: roundEven_def Let_def)
  next
    case False
    with fl have "\<lfloor>a\<rfloor> + 1 \<le> \<lfloor>b\<rfloor>" by simp
    with roundEven_cases [of a] roundEven_cases [of b] show ?thesis by auto
  qed
qed

lemma expo_bounds:
  assumes "x \<noteq> 0"
  shows "2 powi (expo x) \<le> \<bar>x\<bar> \<and> \<bar>x\<bar> < 2 powi (expo x + 1)"
proof (cases "1 \<le> \<bar>x\<bar>")
  case True
  define n where "n = \<lfloor>\<bar>x\<bar>\<rfloor>"
  from True have n: "0 < n" by (simp add: n_def)
  then have b1: "1 \<le> bitlen n" using bitlen_bounds [of n] bitlen_nonneg [of n]
    by (metis bitlen_eq_zero_iff int_one_le_iff_zero_less not_less order_le_less)
  from bitlen_bounds [OF n] have lo: "2 ^ nat (bitlen n - 1) \<le> n" and hi: "n < 2 ^ nat (bitlen n)"
    by simp_all
  have e: "expo x = bitlen n - 1" using True by (simp add: expo_def n_def)
  have "(2::real) powi (bitlen n - 1) = 2 ^ nat (bitlen n - 1)"
    using b1 by (simp add: power_int_def)
  also have "\<dots> = of_int (2 ^ nat (bitlen n - 1))" by simp
  also have "\<dots> \<le> of_int n" using lo by (simp only: of_int_le_iff)
  also have "\<dots> \<le> \<bar>x\<bar>" by (simp add: n_def)
  finally have L: "2 powi (expo x) \<le> \<bar>x\<bar>" by (simp add: e)
  have "n + 1 \<le> 2 ^ nat (bitlen n)" using hi by simp
  then have "of_int (n + 1) \<le> (of_int (2 ^ nat (bitlen n)) :: real)" by (simp only: of_int_le_iff)
  moreover have "\<bar>x\<bar> < of_int (n + 1)" unfolding n_def by linarith
  ultimately have "\<bar>x\<bar> < 2 ^ nat (bitlen n)" by simp
  also have "\<dots> = 2 powi (bitlen n)" using b1 by (simp add: power_int_def)
  finally have "\<bar>x\<bar> < 2 powi (expo x + 1)" by (simp add: e)
  with L show ?thesis by simp
next
  case False
  define y where "y = 1 / \<bar>x\<bar>"
  define m where "m = \<lceil>y\<rceil> - 1"
  from False assms have y1: "1 < y" by (simp add: y_def)
  then have m: "0 < m" unfolding m_def by linarith
  have my: "of_int m < y" "y \<le> of_int m + 1" unfolding m_def by linarith+
  define k where "k = bitlen m"
  from m have k1: "1 \<le> k" unfolding k_def
    by (metis bitlen_eq_zero_iff bitlen_nonneg int_one_le_iff_zero_less not_less order_le_less)
  from bitlen_bounds [OF m] have lo: "2 ^ nat (k - 1) \<le> m" and hi: "m < 2 ^ nat k"
    by (simp_all add: k_def)
  have e: "expo x = - k" using False by (simp add: expo_def k_def m_def y_def)
  have ypos: "0 < y" using y1 by simp
  have xy: "\<bar>x\<bar> = 1 / y" using assms by (simp add: y_def)
  have "m + 1 \<le> 2 ^ nat k" using hi by simp
  then have "of_int (m + 1) \<le> (of_int (2 ^ nat k) :: real)" by (simp only: of_int_le_iff)
  with my have "y \<le> 2 ^ nat k" by simp
  also have "\<dots> = 2 powi k" using k1 by (simp add: power_int_def)
  finally have "y \<le> 2 powi k" .
  then have "1 / (2 powi k) \<le> 1 / y" using ypos by (intro divide_left_mono) simp_all
  then have L: "2 powi (expo x) \<le> \<bar>x\<bar>"
    by (simp add: e xy power_int_minus inverse_eq_divide)
  have "(2::real) powi (k - 1) = 2 ^ nat (k - 1)" using k1 by (simp add: power_int_def)
  also have "\<dots> = of_int (2 ^ nat (k - 1))" by simp
  also have "\<dots> \<le> of_int m" using lo by (simp only: of_int_le_iff)
  also have "\<dots> < y" by (rule my)
  finally have "2 powi (k - 1) < y" .
  then have "1 / y < 1 / (2 powi (k - 1))"
    using ypos by (intro divide_strict_left_mono mult_pos_pos) simp_all
  also have "\<dots> = 2 powi (- (k - 1))" by (simp only: power_int_minus inverse_eq_divide)
  finally have "\<bar>x\<bar> < 2 powi (expo x + 1)" by (simp add: e xy)
  with L show ?thesis by simp
qed

lemma two_powi_less_iff: "(2::real) powi m < 2 powi n \<longleftrightarrow> m < n"
proof
  assume "(2::real) powi m < 2 powi n"
  show "m < n"
  proof (rule ccontr)
    assume "\<not> m < n"
    then have "(2::real) powi n \<le> 2 powi m" by (intro power_int_increasing) simp_all
    with \<open>(2::real) powi m < 2 powi n\<close> show False by simp
  qed
next
  assume "m < n"
  then show "(2::real) powi m < 2 powi n" by (intro power_int_strict_increasing) simp_all
qed

lemma two_powi_le_iff: "(2::real) powi m \<le> 2 powi n \<longleftrightarrow> m \<le> n"
  using two_powi_less_iff [of n m] by (simp add: not_less [symmetric])

lemma expo_unique:
  assumes "2 powi e \<le> \<bar>x\<bar>" "\<bar>x\<bar> < 2 powi (e + 1)"
  shows "expo x = e"
proof -
  have "(0::real) < 2 powi e" by simp
  with assms(1) have "0 < \<bar>x\<bar>" by linarith
  then have x0: "x \<noteq> 0" by auto
  note b = expo_bounds [OF x0]
  have "(2::real) powi e < 2 powi (expo x + 1)" using assms(1) b by linarith
  then have 1: "e < expo x + 1" by (simp add: two_powi_less_iff)
  have "(2::real) powi (expo x) < 2 powi (e + 1)" using assms(2) b by linarith
  then have 2: "expo x < e + 1" by (simp add: two_powi_less_iff)
  from 1 2 show ?thesis by simp
qed


lemma ulp_pos: "0 < ulp x"
  by (simp add: ulp_def)

lemma ulp_scale:
  "2 ^ 52 * ulp x = 2 powi (expo x)" "2 ^ 53 * ulp x = 2 powi (expo x + 1)"
  unfolding ulp_def by (simp_all add: power_int_diff power_int_add)

lemma ratio_bounds:
  assumes "x \<noteq> 0"
  shows "2 ^ 52 \<le> \<bar>x\<bar> / ulp x \<and> \<bar>x\<bar> / ulp x < 2 ^ 53"
proof -
  define c d :: real where "c = 2 ^ 52" and "d = 2 ^ 53"
  from expo_bounds [OF assms] have "c * ulp x \<le> \<bar>x\<bar>" "\<bar>x\<bar> < d * ulp x"
    unfolding c_def d_def by (simp_all only: ulp_scale)
  then have "c \<le> \<bar>x\<bar> / ulp x \<and> \<bar>x\<bar> / ulp x < d"
    using ulp_pos [of x] by (simp add: pos_le_divide_eq pos_divide_less_eq)
  then show ?thesis unfolding c_def d_def .
qed

lemma rnd64_zero: "rnd64 0 = 0"
  by (simp add: rnd64_def)

lemma rnd64_pos_bounds:
  assumes "0 < x"
  shows "2 powi (expo x) \<le> rnd64 x \<and> rnd64 x \<le> 2 powi (expo x + 1)"
proof -
  define c d :: int where "c = 2 ^ 52" and "d = 2 ^ 53"
  have cd: "of_int c = (2 ^ 52 :: real)" "of_int d = (2 ^ 53 :: real)"
    by (simp_all add: c_def d_def)
  from assms have x0: "x \<noteq> 0" by simp
  from ratio_bounds [OF x0] assms have r: "of_int c \<le> x / ulp x" "x / ulp x \<le> of_int d"
    by (simp_all add: cd)
  from roundEven_mono [OF r(1)] roundEven_mono [OF r(2)]
  have "c \<le> roundEven (x / ulp x)" "roundEven (x / ulp x) \<le> d"
    by (simp_all only: roundEven_of_int)
  then have "(of_int c :: real) \<le> of_int (roundEven (x / ulp x))"
       "of_int (roundEven (x / ulp x)) \<le> (of_int d :: real)"
    by (simp_all only: of_int_le_iff)
  then have "of_int c * ulp x \<le> of_int (roundEven (x / ulp x)) * ulp x"
     "of_int (roundEven (x / ulp x)) * ulp x \<le> of_int d * ulp x"
    using ulp_pos [of x] by (simp_all only: mult_le_cancel_right_pos)
  then show ?thesis using x0 by (simp only: rnd64_def cd ulp_scale if_False simp_thms)
qed

lemma expo_minus: "expo (- x) = expo x"
  by (simp add: expo_def)

lemma rnd64_neg_bounds:
  assumes "x < 0"
  shows "- (2 powi (expo x + 1)) \<le> rnd64 x \<and> rnd64 x \<le> - (2 powi (expo x))"
proof -
  define c d :: int where "c = 2 ^ 52" and "d = 2 ^ 53"
  have cd: "of_int c = (2 ^ 52 :: real)" "of_int d = (2 ^ 53 :: real)"
    by (simp_all add: c_def d_def)
  from assms have x0: "x \<noteq> 0" by simp
  from ratio_bounds [OF x0] assms have "of_int c \<le> - x / ulp x" "- x / ulp x \<le> of_int d"
    by (simp_all add: cd)
  then have r: "of_int (- d) \<le> x / ulp x" "x / ulp x \<le> of_int (- c)"
    by simp_all
  from roundEven_mono [OF r(1)] roundEven_mono [OF r(2)]
  have "- d \<le> roundEven (x / ulp x)" "roundEven (x / ulp x) \<le> - c"
    by (simp_all only: roundEven_of_int)
  then have "(of_int (- d) :: real) \<le> of_int (roundEven (x / ulp x))"
       "of_int (roundEven (x / ulp x)) \<le> (of_int (- c) :: real)"
    by (simp_all only: of_int_le_iff)
  then have "of_int (- d) * ulp x \<le> of_int (roundEven (x / ulp x)) * ulp x"
     "of_int (roundEven (x / ulp x)) * ulp x \<le> of_int (- c) * ulp x"
    using ulp_pos [of x] by (simp_all only: mult_le_cancel_right_pos)
  then have "- (of_int d * ulp x) \<le> rnd64 x" "rnd64 x \<le> - (of_int c * ulp x)"
    using x0 by (simp_all add: rnd64_def)
  then show ?thesis by (simp only: cd ulp_scale simp_thms)
qed

lemma expo_mono_abs:
  assumes "x \<noteq> 0" "\<bar>x\<bar> \<le> \<bar>y\<bar>"
  shows "expo x \<le> expo y"
proof -
  from assms have y0: "y \<noteq> 0" by auto
  from expo_bounds [OF assms(1)] expo_bounds [OF y0] assms(2)
  have "(2::real) powi (expo x) < 2 powi (expo y + 1)" by linarith
  then show ?thesis by (simp add: two_powi_less_iff)
qed

lemma rnd64_mono: "x \<le> y \<Longrightarrow> rnd64 x \<le> rnd64 y"
proof -
  assume xy: "x \<le> y"
  consider "x = 0" | "y = 0" | "x < 0" "0 < y" | "0 < x" "0 < y" | "x < 0" "y < 0"
    using xy by linarith
  then show ?thesis
  proof cases
    case 1
    show ?thesis
    proof (cases "y = 0")
      case True with 1 show ?thesis by simp
    next
      case False
      with xy 1 have "0 < y" by simp
      from rnd64_pos_bounds [OF this] have "0 \<le> rnd64 y"
        by (meson order_trans zero_less_power_int less_imp_le zero_less_numeral)
      with 1 show ?thesis by (simp add: rnd64_zero)
    qed
  next
    case 2
    show ?thesis
    proof (cases "x = 0")
      case True with 2 show ?thesis by simp
    next
      case False
      with xy 2 have "x < 0" by simp
      from rnd64_neg_bounds [OF this] have "rnd64 x \<le> 0"
        by (smt (verit) zero_less_power_int)
      with 2 show ?thesis by (simp add: rnd64_zero)
    qed
  next
    case 3
    from rnd64_neg_bounds [OF 3(1)] have "rnd64 x \<le> 0" by (smt (verit) zero_less_power_int)
    moreover from rnd64_pos_bounds [OF 3(2)] have "0 \<le> rnd64 y" by (smt (verit) zero_less_power_int)
    ultimately show ?thesis by simp
  next
    case 4
    then have x0: "x \<noteq> 0" and y0: "y \<noteq> 0" by simp_all
    from 4 xy have e: "expo x \<le> expo y" by (intro expo_mono_abs) simp_all
    show ?thesis
    proof (cases "expo x = expo y")
      case True
      then have u: "ulp x = ulp y" by (simp add: ulp_def)
      from xy have "x / ulp y \<le> y / ulp y" using ulp_pos [of y] by (simp add: divide_right_mono)
      from roundEven_mono [OF this] have "of_int (roundEven (x / ulp y)) * ulp y \<le> of_int (roundEven (y / ulp y)) * ulp y"
        using ulp_pos [of y] by (simp add: mult_right_mono)
      then show ?thesis using x0 y0 by (simp add: rnd64_def u)
    next
      case False
      with e have "expo x + 1 \<le> expo y" by simp
      then have "(2::real) powi (expo x + 1) \<le> 2 powi (expo y)" by (simp add: two_powi_le_iff)
      with rnd64_pos_bounds [OF 4(1)] rnd64_pos_bounds [OF 4(2)] show ?thesis by linarith
    qed
  next
    case 5
    then have x0: "x \<noteq> 0" and y0: "y \<noteq> 0" by simp_all
    from 5 xy have e: "expo y \<le> expo x" by (intro expo_mono_abs) simp_all
    show ?thesis
    proof (cases "expo x = expo y")
      case True
      then have u: "ulp x = ulp y" by (simp add: ulp_def)
      from xy have "x / ulp y \<le> y / ulp y" using ulp_pos [of y] by (simp add: divide_right_mono)
      from roundEven_mono [OF this] have "of_int (roundEven (x / ulp y)) * ulp y \<le> of_int (roundEven (y / ulp y)) * ulp y"
        using ulp_pos [of y] by (simp add: mult_right_mono)
      then show ?thesis using x0 y0 by (simp add: rnd64_def u)
    next
      case False
      with e have "expo y + 1 \<le> expo x" by simp
      then have "(2::real) powi (expo y + 1) \<le> 2 powi (expo x)" by (simp add: two_powi_le_iff)
      with rnd64_neg_bounds [OF 5(1)] rnd64_neg_bounds [OF 5(2)] show ?thesis by linarith
    qed
  qed
qed


lemma rnd64_error: "\<bar>rnd64 x - x\<bar> \<le> \<bar>x\<bar> / 2 ^ 53"
proof (cases "x = 0")
  case True
  then show ?thesis by (simp add: rnd64_zero)
next
  case False
  define n where "n = roundEven (x / ulp x)"
  have "rnd64 x - x = (of_int n - x / ulp x) * ulp x"
    using False ulp_pos [of x] by (simp add: rnd64_def n_def algebra_simps)
  then have "\<bar>rnd64 x - x\<bar> = \<bar>of_int n - x / ulp x\<bar> * ulp x"
    using ulp_pos [of x] by (simp add: abs_mult)
  also have "\<dots> \<le> 1 / 2 * ulp x"
    using roundEven_error [of "x / ulp x"] ulp_pos [of x]
    unfolding n_def by (intro mult_right_mono) simp_all
  also have "\<dots> = (2 ^ 52 * ulp x) / 2 ^ 53" by simp
  also have "\<dots> = 2 powi (expo x) / 2 ^ 53" by (simp only: ulp_scale)
  also have "\<dots> \<le> \<bar>x\<bar> / 2 ^ 53"
    using expo_bounds [OF False] by (intro divide_right_mono) simp_all
  finally show ?thesis .
qed

lemma rnd64_fix:
  assumes "2 ^ 52 \<le> \<bar>n\<bar>" "\<bar>n\<bar> < 2 ^ 53"
  shows "rnd64 (of_int n * 2 powi k) = of_int n * 2 powi k"
proof -
  define r :: real where "r = of_int n * 2 powi k"
  have an: "\<bar>r\<bar> = of_int \<bar>n\<bar> * 2 powi k" by (simp add: r_def abs_mult)
  from assms have "(of_int (2 ^ 52) :: real) \<le> of_int \<bar>n\<bar>" "(of_int \<bar>n\<bar> :: real) < of_int (2 ^ 53)"
    by (simp_all only: of_int_le_iff of_int_less_iff)
  then have "2 ^ 52 * 2 powi k \<le> \<bar>r\<bar>" "\<bar>r\<bar> < 2 ^ 53 * 2 powi k"
    unfolding an by simp_all
  moreover have "2 ^ 52 * 2 powi k = (2::real) powi (k + 52)" "2 ^ 53 * 2 powi k = (2::real) powi (k + 52 + 1)"
    by (simp_all add: power_int_add)
  ultimately have "2 powi (k + 52) \<le> \<bar>r\<bar>" "\<bar>r\<bar> < 2 powi (k + 52 + 1)" by simp_all
  then have e: "expo r = k + 52" by (rule expo_unique)
  then have u: "ulp r = 2 powi k" by (simp add: ulp_def)
  from assms have "n \<noteq> 0" by auto
  then have r0: "r \<noteq> 0" by (simp add: r_def)
  have q: "r / ulp r = of_int n" unfolding u unfolding r_def by simp
  have "rnd64 r = of_int (roundEven (r / ulp r)) * ulp r"
    using r0 by (simp add: rnd64_def)
  also have "\<dots> = of_int n * ulp r" by (simp only: q roundEven_of_int)
  also have "\<dots> = of_int n * 2 powi k" by (simp only: u)
  finally show ?thesis unfolding r_def .
qed

lemma rnd64_idem: "rnd64 (rnd64 x) = rnd64 x"
proof (cases "x = 0")
  case True
  then show ?thesis by (simp add: rnd64_zero)
next
  case False
  define n where "n = roundEven (x / ulp x)"
  define k where "k = expo x - 52"
  have r: "rnd64 x = of_int n * 2 powi k"
    using False by (simp add: rnd64_def n_def k_def ulp_def)
  have rb: "2 ^ 52 \<le> \<bar>x / ulp x\<bar>" "\<bar>x / ulp x\<bar> \<le> 2 ^ 53"
    using ratio_bounds [OF False] ulp_pos [of x] by (simp_all add: abs_divide)
  have nb: "2 ^ 52 \<le> \<bar>n\<bar> \<and> \<bar>n\<bar> \<le> 2 ^ 53"
  proof (cases "0 \<le> x / ulp x")
    case True
    with rb have "of_int (2 ^ 52) \<le> x / ulp x" "x / ulp x \<le> of_int (2 ^ 53)" by simp_all
    from roundEven_mono [OF this(1)] roundEven_mono [OF this(2)]
    show ?thesis unfolding n_def by (simp only: roundEven_of_int) simp
  next
    case False
    with rb have "of_int (- (2 ^ 53)) \<le> x / ulp x" "x / ulp x \<le> of_int (- (2 ^ 52))" by simp_all
    from roundEven_mono [OF this(1)] roundEven_mono [OF this(2)]
    show ?thesis unfolding n_def by (simp only: roundEven_of_int) simp
  qed
  show ?thesis
  proof (cases "\<bar>n\<bar> < 2 ^ 53")
    case True
    with nb rnd64_fix [of n k] show ?thesis by (simp add: r)
  next
    case False
    with nb have top: "\<bar>n\<bar> = 2 ^ 53" by simp
    then obtain m where m: "n = 2 * m" "\<bar>m\<bar> = 2 ^ 52"
      by (cases "0 \<le> n") (auto intro: that [of "2 ^ 52"] that [of "- (2 ^ 52)"])
    have "of_int n * 2 powi k = (of_int m :: real) * 2 powi (k + 1)"
      by (simp add: m power_int_add)
    moreover have "rnd64 (of_int m * 2 powi (k + 1)) = of_int m * 2 powi (k + 1)"
      using m by (intro rnd64_fix) simp_all
    ultimately show ?thesis by (simp add: r)
  qed
qed


lemma rnd64_one: "rnd64 1 = 1"
  by (simp add: rnd64_def ulp_def expo_def roundEven_def compute_bitlen)

lemma rnd64_half: "rnd64 (1 / 2) = 1 / 2"
  by (simp add: rnd64_def ulp_def expo_def roundEven_def compute_bitlen)

lemma rnd64_two: "rnd64 2 = 2"
  by (simp add: rnd64_def ulp_def expo_def roundEven_def compute_bitlen)

lemma rnd64_nonneg: "0 \<le> x \<Longrightarrow> 0 \<le> rnd64 x"
  using rnd64_mono [of 0 x] by (simp add: rnd64_zero)

lemma rnd64_nonpos: "x \<le> 0 \<Longrightarrow> rnd64 x \<le> 0"
  using rnd64_mono [of x 0] by (simp add: rnd64_zero)

lemma rnd64_ge_one: "1 \<le> x \<Longrightarrow> 1 \<le> rnd64 x"
  using rnd64_mono [of 1 x] by (simp add: rnd64_one)

lemma rnd64_le_one: "x \<le> 1 \<Longrightarrow> rnd64 x \<le> 1"
  using rnd64_mono [of x 1] by (simp add: rnd64_one)

lemma isDouble_rnd64: "isDouble (rnd64 x)"
  by (simp add: isDouble_def rnd64_idem)

subsection \<open>The local progress, the easing and the interpolated position\<close>

lemma localP_range: "0 \<le> localP p g \<and> localP p g \<le> 1"
  by (simp add: localP_def clamp_def)

lemma clamp_mono: "a \<le> b \<Longrightarrow> clamp a lo hi \<le> clamp b lo hi"
  by (auto simp add: clamp_def min_def max_def)

lemma localP_mono: "0 < duration p \<Longrightarrow> g1 \<le> g2 \<Longrightarrow> localP p g1 \<le> localP p g2"
  unfolding localP_def fdiv_def fsub_def
  by (intro clamp_mono rnd64_mono divide_right_mono) simp_all

lemma localP_start: "0 < duration p \<Longrightarrow> g \<le> delay p \<Longrightarrow> localP p g = 0"
proof -
  assume d: "0 < duration p" and "g \<le> delay p"
  then have "fsub g (delay p) \<le> 0" unfolding fsub_def by (intro rnd64_nonpos) simp
  with d have "fsub g (delay p) / duration p \<le> 0" by (intro divide_nonpos_pos)
  then have "fdiv (fsub g (delay p)) (duration p) \<le> 0" unfolding fdiv_def by (rule rnd64_nonpos)
  then show ?thesis by (simp add: localP_def clamp_def)
qed

lemma localP_end:
  assumes "0 < duration p" "isDouble (duration p)" "delay p + duration p \<le> g"
  shows "localP p g = 1"
proof -
  from assms(3) have "duration p \<le> g - delay p" by simp
  from rnd64_mono [OF this] assms(2) have "duration p \<le> fsub g (delay p)"
    by (simp add: fsub_def isDouble_def)
  with assms(1) have "1 \<le> fsub g (delay p) / duration p" by (simp add: pos_le_divide_eq)
  then have "1 \<le> fdiv (fsub g (delay p)) (duration p)" unfolding fdiv_def by (rule rnd64_ge_one)
  then show ?thesis by (simp add: localP_def clamp_def)
qed

text \<open>The two branches of the easing.\<close>

lemma easing_lower: "lp < 1 / 2 \<Longrightarrow> easing lp = fmul (fmul (fmul 4 lp) lp) lp"
  by (simp add: easing_def)

lemma easing_upper: "1 / 2 \<le> lp \<Longrightarrow> easing lp = fsub 1 (fdiv (pow3 (fadd (fmul (- 2) lp) 2)) 2)"
  by (simp add: easing_def)

lemma cube_mono: "(a::real) \<le> b \<Longrightarrow> a ^ 3 \<le> b ^ 3"
  by (rule power_mono_odd) simp_all

lemma lower_mono:
  assumes "0 \<le> a" "a \<le> b"
  shows "fmul (fmul (fmul 4 a) a) a \<le> fmul (fmul (fmul 4 b) b) b"
proof -
  have 1: "fmul 4 a \<le> fmul 4 b" "0 \<le> fmul 4 a"
    unfolding fmul_def using assms by (auto intro!: rnd64_mono rnd64_nonneg)
  then have 2: "fmul (fmul 4 a) a \<le> fmul (fmul 4 b) b" "0 \<le> fmul (fmul 4 a) a"
    unfolding fmul_def [of "rnd64 _"] fmul_def [of "fmul _ _"] using assms
    by (auto intro!: rnd64_mono rnd64_nonneg mult_mono)
  then show ?thesis
    unfolding fmul_def [of "fmul (fmul _ _) _"] using assms
    by (auto intro!: rnd64_mono mult_mono)
qed

lemma upper_mono:
  assumes "a \<le> b"
  shows "fsub 1 (fdiv (pow3 (fadd (fmul (- 2) a) 2)) 2) \<le> fsub 1 (fdiv (pow3 (fadd (fmul (- 2) b) 2)) 2)"
proof -
  have "fmul (- 2) b \<le> fmul (- 2) a" unfolding fmul_def using assms by (intro rnd64_mono) simp
  then have "fadd (fmul (- 2) b) 2 \<le> fadd (fmul (- 2) a) 2" unfolding fadd_def by (intro rnd64_mono) simp
  then have "pow3 (fadd (fmul (- 2) b) 2) \<le> pow3 (fadd (fmul (- 2) a) 2)"
    unfolding pow3_def by (intro rnd64_mono cube_mono)
  then have "fdiv (pow3 (fadd (fmul (- 2) b) 2)) 2 \<le> fdiv (pow3 (fadd (fmul (- 2) a) 2)) 2"
    unfolding fdiv_def by (intro rnd64_mono divide_right_mono) simp_all
  then show ?thesis unfolding fsub_def by (intro rnd64_mono) simp
qed

lemma lower_half: "fmul (fmul (fmul 4 (1 / 2)) (1 / 2)) (1 / 2) = 1 / 2"
  by (simp add: fmul_def rnd64_two rnd64_one rnd64_half)

lemma upper_half: "fsub 1 (fdiv (pow3 (fadd (fmul (- 2) (1 / 2)) 2)) 2) = 1 / 2"
  by (simp add: fmul_def fadd_def fsub_def fdiv_def pow3_def rnd64_def ulp_def expo_def roundEven_def compute_bitlen)

lemma easing_zero: "easing 0 = 0"
  by (simp add: easing_def fmul_def rnd64_zero)

lemma easing_one: "easing 1 = 1"
  by (simp add: easing_def fmul_def fadd_def fsub_def fdiv_def pow3_def rnd64_def ulp_def expo_def roundEven_def compute_bitlen)

lemma easing_half: "easing (1 / 2) = 1 / 2"
  using upper_half by (simp add: easing_def)

lemma easing_mono: "0 \<le> a \<Longrightarrow> a \<le> b \<Longrightarrow> easing a \<le> easing b"
proof -
  assume a0: "0 \<le> a" and ab: "a \<le> b"
  consider "b < 1 / 2" | "1 / 2 \<le> a" | "a < 1 / 2" "1 / 2 \<le> b" by linarith
  then show ?thesis
  proof cases
    case 1
    with ab have "a < 1 / 2" by simp
    with 1 lower_mono [OF a0 ab] show ?thesis by (simp add: easing_lower)
  next
    case 2
    with ab have "1 / 2 \<le> b" by simp
    with 2 upper_mono [OF ab] show ?thesis by (simp add: easing_upper)
  next
    case 3
    from lower_mono [OF a0, of "1 / 2"] 3(1) have "easing a \<le> 1 / 2"
      by (simp add: easing_lower lower_half)
    moreover from upper_mono [OF 3(2)] 3(2) have "1 / 2 \<le> easing b"
      by (simp add: easing_upper upper_half)
    ultimately show ?thesis by simp
  qed
qed

lemma easing_range: "0 \<le> x \<Longrightarrow> x \<le> 1 \<Longrightarrow> 0 \<le> easing x \<and> easing x \<le> 1"
  using easing_mono [of 0 x] easing_mono [of x 1] by (simp add: easing_zero easing_one)

lemma framePosition_coord:
  "coord ax (framePosition p g) =
     lerp (coord ax (explodedPos p)) (coord ax (assembledPos p)) (easing (localP p g))"
  by (cases ax; cases "explodedPos p"; cases "assembledPos p") (simp_all add: framePosition_def)

lemma vec3_eqI: "(\<And>ax. coord ax u = coord ax v) \<Longrightarrow> u = v"
proof -
  assume h: "\<And>ax. coord ax u = coord ax v"
  obtain a b c where u: "u = (a, b, c)" by (cases u)
  obtain d e f where v: "v = (d, e, f)" by (cases v)
  from h [of X] h [of Y] h [of Z] show ?thesis by (simp add: u v)
qed

lemma lerp_zero: "lerp e a 0 = rnd64 e"
  by (simp add: lerp_def fadd_def fmul_def rnd64_zero)

lemma lerp_one: "lerp e a 1 = fadd e (fsub a e)"
  by (simp add: lerp_def fmul_def fsub_def rnd64_idem)

lemma lerp_mono_up:
  assumes "e \<le> a" "t1 \<le> t2"
  shows "lerp e a t1 \<le> lerp e a t2"
proof -
  have "0 \<le> fsub a e" unfolding fsub_def using assms(1) by (intro rnd64_nonneg) simp
  then have "fsub a e * t1 \<le> fsub a e * t2" using assms(2) by (intro mult_left_mono)
  then have "fmul (fsub a e) t1 \<le> fmul (fsub a e) t2" unfolding fmul_def by (rule rnd64_mono)
  then show ?thesis unfolding lerp_def fadd_def by (intro rnd64_mono) simp
qed

lemma lerp_mono_down:
  assumes "a \<le> e" "t1 \<le> t2"
  shows "lerp e a t2 \<le> lerp e a t1"
proof -
  have "fsub a e \<le> 0" unfolding fsub_def using assms(1) by (intro rnd64_nonpos) simp
  then have "fsub a e * t2 \<le> fsub a e * t1" using assms(2) by (intro mult_left_mono_neg)
  then have "fmul (fsub a e) t2 \<le> fmul (fsub a e) t1" unfolding fmul_def by (rule rnd64_mono)
  then show ?thesis unfolding lerp_def fadd_def by (intro rnd64_mono) simp
qed

lemma lerp_between:
  assumes "t0 \<le> t1" "t1 \<le> t2"
  shows "between (lerp e a t0) (lerp e a t2) (lerp e a t1)"
proof (cases "e \<le> a")
  case True
  from lerp_mono_up [OF True assms(1)] lerp_mono_up [OF True assms(2)]
  show ?thesis by (simp add: between_def)
next
  case False
  then have ae: "a \<le> e" by simp
  from lerp_mono_down [OF ae assms(1)] lerp_mono_down [OF ae assms(2)]
  show ?thesis by (auto simp add: between_def min_def max_def)
qed

lemma lerp_one_error:
  "\<bar>lerp e a 1 - a\<bar> \<le> (\<bar>a\<bar> + 2 * \<bar>a - e\<bar>) / 2 ^ 53"
proof -
  define d where "d = fsub a e"
  have d: "\<bar>d - (a - e)\<bar> \<le> \<bar>a - e\<bar> / 2 ^ 53"
    unfolding d_def fsub_def by (rule rnd64_error)
  have s: "\<bar>rnd64 (e + d) - (e + d)\<bar> \<le> \<bar>e + d\<bar> / 2 ^ 53" by (rule rnd64_error)
  have "\<bar>e + d\<bar> \<le> \<bar>a\<bar> + \<bar>d - (a - e)\<bar>" by linarith
  also have "\<dots> \<le> \<bar>a\<bar> + \<bar>a - e\<bar> / 2 ^ 53" using d by simp
  also have "\<dots> \<le> \<bar>a\<bar> + \<bar>a - e\<bar>" by (simp add: field_simps)
  finally have "\<bar>e + d\<bar> / 2 ^ 53 \<le> (\<bar>a\<bar> + \<bar>a - e\<bar>) / 2 ^ 53"
    by (intro divide_right_mono) simp_all
  with s have s': "\<bar>rnd64 (e + d) - (e + d)\<bar> \<le> (\<bar>a\<bar> + \<bar>a - e\<bar>) / 2 ^ 53" by linarith
  have "\<bar>rnd64 (e + d) - a\<bar> \<le> \<bar>rnd64 (e + d) - (e + d)\<bar> + \<bar>d - (a - e)\<bar>" by linarith
  also have "\<dots> \<le> (\<bar>a\<bar> + \<bar>a - e\<bar>) / 2 ^ 53 + \<bar>a - e\<bar> / 2 ^ 53" using s' d by linarith
  also have "\<dots> = (\<bar>a\<bar> + 2 * \<bar>a - e\<bar>) / 2 ^ 53" by (simp add: field_simps)
  finally show ?thesis by (simp add: lerp_one fadd_def d_def)
qed


text \<open>Evaluation of the arithmetic on numerals.\<close>

lemmas f64 = rnd64_def ulp_def expo_def roundEven_def compute_bitlen fadd_def fsub_def fmul_def
  fdiv_def pow3_def power3_eq_cube

text \<open>The dimensions of lines 71-144 as binary64 values.\<close>

lemma base_values:
  "BoxW = 3152519739159347 / 1125899906842624"
  "BoxH = 4278419646001971 / 2251799813685248"
  "Depth = 3602879701896397 / 4503599627370496"
  "BeamSize = 1261007895663739 / 9007199254740992"
  "ExplodeZ = 5"
  "ExplodeXY = 5 / 2"
  by (simp_all add: BoxW_def BoxH_def Depth_def BeamSize_def ExplodeZ_def ExplodeXY_def f64)

lemma derived_values:
  "beamLen = 3602879701896397 / 4503599627370496"
  "beamZ = 3602879701896397 / 9007199254740992"
  "beamY_Top = 990791918021509 / 1125899906842624"
  "beamY_Bot = - (990791918021509 / 1125899906842624)"
  "beamX_Left = - (5989787504402759 / 4503599627370496)"
  "beamX_Right = 5989787504402759 / 4503599627370496"
  "innerW = 709316941310853 / 281474976710656"
  "innerH = 7295831396340203 / 4503599627370496"
  by (simp_all add: beamLen_def beamZ_def beamY_Top_def beamY_Bot_def beamX_Left_def
      beamX_Right_def innerW_def innerH_def base_values f64)

lemmas dims = base_values derived_values

lemma glass_fields:
  "delay (last windowParts) = 2476979795053773 / 4503599627370496"
  "duration (last windowParts) = 1 / 2"
  "coord Z (explodedPos (last windowParts)) = 9 / 2"
  "coord Z (assembledPos (last windowParts)) = 5404319552844595 / 18014398509481984"
  by (simp_all add: windowParts_def boxPart_def winZ_def ExplodeZ_def f64)

lemma glass_localP_one: "localP (last windowParts) 1 = 2026619832316723 / 2251799813685248"
  by (simp add: localP_def clamp_def glass_fields f64)

lemma glass_easing_one:
  "easing (2026619832316723 / 2251799813685248) = 2242792614430507 / 2251799813685248"
  by (simp add: easing_def f64)

lemma glass_rest:
  "lerp (9 / 2) (5404319552844595 / 18014398509481984) (2242792614430507 / 2251799813685248) =
     356685090487743 / 1125899906842624"
  by (simp add: lerp_def f64)

lemma glass_z_one: "coord Z (framePosition (last windowParts) 1) = 356685090487743 / 1125899906842624"
  by (simp add: framePosition_coord glass_fields glass_localP_one glass_easing_one glass_rest)

lemma cladtop_fields:
  "delay (hd claddingParts) = 5404319552844595 / 9007199254740992"
  "duration (hd claddingParts) = 3602879701896397 / 9007199254740992"
  "coord Y (explodedPos (hd claddingParts)) = 3805541685128069 / 1125899906842624"
  "coord Y (assembledPos (hd claddingParts)) = 8691947280825057 / 9007199254740992"
  by (simp_all add: claddingParts_def boxPart_def beamY_Top_def BoxH_def BeamSize_def
      cladThick_def ExplodeXY_def f64)

lemma cladtop_localP_one: "localP (hd claddingParts) 1 = 1"
  by (simp add: localP_def clamp_def cladtop_fields f64)

lemma cladtop_y_one:
  "coord Y (framePosition (hd claddingParts) 1) = 271623352525783 / 281474976710656"
  by (simp add: framePosition_coord cladtop_localP_one easing_one lerp_one cladtop_fields f64)

subsection \<open>The interpolator\<close>

text \<open>
  Claim C1 as stated fails. The glass pane, the last entry of the window parts,
  has a positive duration and its delay plus duration is at least 1 (it is
  1.05), yet at global progress 1 its position is not the assembled position:
  its window is cut off at the local progress 0.9. The top cladding, the first
  entry of the cladding parts, has delay plus duration exactly 1 and local
  progress 1 at global progress 1, and still its position is not the assembled
  position: its y coordinate ends one rounding step below.
\<close>

theorem endpoint_not_reached:
  "0 < duration (last windowParts) \<and>
   delay (last windowParts) + duration (last windowParts) \<ge> 1 \<and>
   framePosition (last windowParts) 1 \<noteq> assembledPos (last windowParts) \<and>
   0 < duration (hd claddingParts) \<and>
   delay (hd claddingParts) + duration (hd claddingParts) \<ge> 1 \<and>
   localP (hd claddingParts) 1 = 1 \<and>
   framePosition (hd claddingParts) 1 \<noteq> assembledPos (hd claddingParts)"
proof -
  have "coord Z (framePosition (last windowParts) 1) \<noteq> coord Z (assembledPos (last windowParts))"
    by (simp add: glass_z_one glass_fields)
  then have g: "framePosition (last windowParts) 1 \<noteq> assembledPos (last windowParts)" by auto
  have "coord Y (framePosition (hd claddingParts) 1) \<noteq> coord Y (assembledPos (hd claddingParts))"
    by (simp add: cladtop_y_one cladtop_fields)
  then have c: "framePosition (hd claddingParts) 1 \<noteq> assembledPos (hd claddingParts)" by auto
  from g c show ?thesis by (simp add: glass_fields cladtop_fields cladtop_localP_one)
qed

text \<open>
  Claim C1, amended. For a part with a positive binary64 duration and a
  binary64 exploded position, the position at global progress 0 is the
  exploded position when the delay is 0. When delay plus duration is at most 1
  (the window ends by progress 1), the local and the eased progress at global
  progress 1 are exactly 1, and the position is on each axis the rounded sum
  of the exploded coordinate and the rounded difference assembled minus
  exploded; that is the assembled coordinate up to rounding, within
  \<open>(\<bar>a\<bar> + 2 * \<bar>a - e\<bar>) / 2 ^ 53\<close>, and not always the assembled coordinate
  itself.
\<close>

theorem endpoints_when_window_inside:
  assumes "0 < duration p" "isDouble (duration p)" "isDoubleVec (explodedPos p)"
  shows "(delay p = 0 \<longrightarrow> framePosition p 0 = explodedPos p) \<and>
         (delay p + duration p \<le> 1 \<longrightarrow>
            localP p 1 = 1 \<and> easing (localP p 1) = 1 \<and>
            coord ax (framePosition p 1) =
              fadd (coord ax (explodedPos p))
                   (fsub (coord ax (assembledPos p)) (coord ax (explodedPos p))) \<and>
            \<bar>coord ax (framePosition p 1) - coord ax (assembledPos p)\<bar> \<le>
              (\<bar>coord ax (assembledPos p)\<bar> +
               2 * \<bar>coord ax (assembledPos p) - coord ax (explodedPos p)\<bar>) / 2 ^ 53)"
proof (intro conjI impI)
  assume "delay p = 0"
  with assms(1) have "localP p 0 = 0" by (simp add: localP_start)
  moreover have "rnd64 (coord a (explodedPos p)) = coord a (explodedPos p)" for a
    using assms(3) by (cases a) (simp_all add: isDoubleVec_def isDouble_def)
  ultimately show "framePosition p 0 = explodedPos p"
    by (intro vec3_eqI) (simp add: framePosition_coord easing_zero lerp_zero)
next
  assume "delay p + duration p \<le> 1"
  with assms(1,2) show l: "localP p 1 = 1" by (simp add: localP_end)
  then show "easing (localP p 1) = 1" by (simp add: easing_one)
  from l show "coord ax (framePosition p 1) =
              fadd (coord ax (explodedPos p))
                   (fsub (coord ax (assembledPos p)) (coord ax (explodedPos p)))"
    by (simp add: framePosition_coord easing_one lerp_one)
  from l lerp_one_error [of "coord ax (explodedPos p)" "coord ax (assembledPos p)"]
  show "\<bar>coord ax (framePosition p 1) - coord ax (assembledPos p)\<bar> \<le>
              (\<bar>coord ax (assembledPos p)\<bar> +
               2 * \<bar>coord ax (assembledPos p) - coord ax (explodedPos p)\<bar>) / 2 ^ 53"
    by (simp add: framePosition_coord easing_one)
qed

theorem endpoints_when_window_inside_witness:
  "0 < duration ((beamPart (hd beams))\<lparr>delay := 0\<rparr>) \<and>
   isDouble (duration ((beamPart (hd beams))\<lparr>delay := 0\<rparr>)) \<and>
   isDoubleVec (explodedPos ((beamPart (hd beams))\<lparr>delay := 0\<rparr>)) \<and>
   delay ((beamPart (hd beams))\<lparr>delay := 0\<rparr>) = 0 \<and>
   explodedPos ((beamPart (hd beams))\<lparr>delay := 0\<rparr>) \<noteq>
     assembledPos ((beamPart (hd beams))\<lparr>delay := 0\<rparr>) \<and>
   framePosition ((beamPart (hd beams))\<lparr>delay := 0\<rparr>) 0 =
     explodedPos ((beamPart (hd beams))\<lparr>delay := 0\<rparr>) \<and>
   delay ((beamPart (hd beams))\<lparr>delay := 0\<rparr>) +
     duration ((beamPart (hd beams))\<lparr>delay := 0\<rparr>) \<le> 1 \<and>
   localP ((beamPart (hd beams))\<lparr>delay := 0\<rparr>) 1 = 1 \<and>
   \<bar>coord Z (framePosition ((beamPart (hd beams))\<lparr>delay := 0\<rparr>) 1) -
      coord Z (assembledPos ((beamPart (hd beams))\<lparr>delay := 0\<rparr>))\<bar> \<le>
     (\<bar>coord Z (assembledPos ((beamPart (hd beams))\<lparr>delay := 0\<rparr>))\<bar> +
      2 * \<bar>coord Z (assembledPos ((beamPart (hd beams))\<lparr>delay := 0\<rparr>)) -
              coord Z (explodedPos ((beamPart (hd beams))\<lparr>delay := 0\<rparr>))\<bar>) / 2 ^ 53"
proof -
  define p where "p = (beamPart (hd beams))\<lparr>delay := 0\<rparr>"
  have h: "0 < duration p" "isDouble (duration p)" "isDoubleVec (explodedPos p)"
    by (simp_all add: p_def beams_def boxPart_def isDoubleVec_def isDouble_def dims f64)
  have d: "delay p = 0" "delay p + duration p \<le> 1" "explodedPos p \<noteq> assembledPos p"
    by (simp_all add: p_def beams_def boxPart_def dims f64)
  from endpoints_when_window_inside [OF h, of Z] h d show ?thesis unfolding p_def [symmetric] by blast
qed

text \<open>
  Claim C5 as stated fails in the eased value: for the local progress 0.4 the
  code computes \<^verbatim>\<open>4 * 0.4 * 0.4 * 0.4\<close> with three rounded multiplications
  and gets 0.25600000000000006, which is neither the real number 0.256 nor the
  binary64 value nearest to it.
\<close>

theorem eased_value_not_exact:
  "localP ((hd railParts)\<lparr>delay := rnd64 0.3, duration := rnd64 0.5\<rparr>) 0.5 = rnd64 0.4 \<and>
   easing (rnd64 0.4) = 4611686018427389 / 18014398509481984 \<and>
   easing (rnd64 0.4) \<noteq> 0.256 \<and> easing (rnd64 0.4) \<noteq> rnd64 0.256"
  by (simp add: localP_def clamp_def easing_def f64)

text \<open>
  Claim C5, amended. With speed 1, a frame 1.5 seconds (1500 ms) after the last
  one takes the progress from 0 to 0.5, the increment being the elapsed seconds
  times the speed divided by 3. A part with delay 0.3 and duration 0.5 has at
  global progress 0.5 the local progress 0.4 (the binary64 value), the eased
  value \<^verbatim>\<open>4 * 0.4 * 0.4 * 0.4\<close> computed in binary64, which is
  \<open>4611686018427389 / 2 ^ 54\<close> (printed 0.25600000000000006) and within
  \<open>1 / 2 ^ 53\<close> of 0.256, and on each axis the position
  \<^verbatim>\<open>exploded + (assembled - exploded) * t\<close> computed in binary64 with that
  eased value \<open>t\<close>.
\<close>

theorem end_to_end_scenario:
  "progressRef (animate (t0 + 1500) (s\<lparr>speed := 1, progressRef := 0, lastTimeRef := Some t0\<rparr>)) = 0.5 \<and>
   localP (p\<lparr>delay := rnd64 0.3, duration := rnd64 0.5\<rparr>) 0.5 = rnd64 0.4 \<and>
   easing (rnd64 0.4) = fmul (fmul (fmul 4 (rnd64 0.4)) (rnd64 0.4)) (rnd64 0.4) \<and>
   easing (rnd64 0.4) = 4611686018427389 / 18014398509481984 \<and>
   \<bar>easing (rnd64 0.4) - 0.256\<bar> \<le> 1 / 2 ^ 53 \<and>
   framePosition (p\<lparr>explodedPos := (ex, ey, ez), assembledPos := (ax, ay, az),
                    delay := rnd64 0.3, duration := rnd64 0.5\<rparr>) 0.5 =
     (lerp ex ax (4611686018427389 / 18014398509481984),
      lerp ey ay (4611686018427389 / 18014398509481984),
      lerp ez az (4611686018427389 / 18014398509481984))"
proof -
  have tick: "progressRef (animate (t0 + 1500) (s\<lparr>speed := 1, progressRef := 0, lastTimeRef := Some t0\<rparr>)) = 0.5"
    by (simp add: animate_def Let_def)
  have lp: "\<And>q. localP (q\<lparr>delay := rnd64 0.3, duration := rnd64 0.5\<rparr>) 0.5 = rnd64 0.4"
    by (simp add: localP_def clamp_def f64)
  have e: "easing (rnd64 0.4) = fmul (fmul (fmul 4 (rnd64 0.4)) (rnd64 0.4)) (rnd64 0.4)"
    by (simp add: easing_def f64)
  have e': "easing (rnd64 0.4) = 4611686018427389 / 18014398509481984"
    by (simp add: easing_def f64)
  have n: "\<bar>easing (rnd64 0.4) - 0.256\<bar> \<le> 1 / 2 ^ 53"
    unfolding e' by simp
  have "framePosition (p\<lparr>explodedPos := (ex, ey, ez), assembledPos := (ax, ay, az),
                    delay := rnd64 0.3, duration := rnd64 0.5\<rparr>) 0.5 =
     (lerp ex ax (4611686018427389 / 18014398509481984),
      lerp ey ay (4611686018427389 / 18014398509481984),
      lerp ez az (4611686018427389 / 18014398509481984))"
    unfolding framePosition_def Let_def lp e' by simp
  with tick lp e e' n show ?thesis by blast
qed

text \<open>
  Claim C6 as stated fails in the bound: at global progress 1 the y coordinate
  of the top cladding is below its assembled coordinate, which is below its
  exploded coordinate, so the position is outside the closed interval spanned
  by the exploded and the assembled position.
\<close>

theorem overshoot_past_assembled:
  "0 < duration (hd claddingParts) \<and>
   coord Y (framePosition (hd claddingParts) 1) < coord Y (assembledPos (hd claddingParts)) \<and>
   coord Y (assembledPos (hd claddingParts)) < coord Y (explodedPos (hd claddingParts)) \<and>
   \<not> between (coord Y (explodedPos (hd claddingParts))) (coord Y (assembledPos (hd claddingParts)))
       (coord Y (framePosition (hd claddingParts) 1))"
  by (simp add: cladtop_y_one cladtop_fields between_def)

text \<open>
  Claim C6, amended. For a part with a positive duration and global progress
  values \<open>g1 \<le> g2\<close>, on every axis the position at \<open>g2\<close> lies between the
  position at \<open>g1\<close> and the end position \<open>lerp e a 1\<close>, the position the
  interpolation computes for the eased progress 1, and the position at any
  progress lies in the closed interval spanned by the start position
  \<open>lerp e a 0\<close> and the end position. The start position is the exploded
  coordinate (rounded, so itself when it is a binary64 value); the end
  position is the assembled coordinate up to rounding, within
  \<open>(\<bar>a\<bar> + 2 * \<bar>a - e\<bar>) / 2 ^ 53\<close>, which bounds any overshoot past the
  assembled position.
\<close>

theorem motion_monotone_no_overshoot:
  assumes "0 < duration p" "g1 \<le> g2"
  shows "between (coord ax (framePosition p g1))
           (lerp (coord ax (explodedPos p)) (coord ax (assembledPos p)) 1)
           (coord ax (framePosition p g2)) \<and>
         between (lerp (coord ax (explodedPos p)) (coord ax (assembledPos p)) 0)
           (lerp (coord ax (explodedPos p)) (coord ax (assembledPos p)) 1)
           (coord ax (framePosition p g)) \<and>
         lerp (coord ax (explodedPos p)) (coord ax (assembledPos p)) 0 =
           rnd64 (coord ax (explodedPos p)) \<and>
         \<bar>lerp (coord ax (explodedPos p)) (coord ax (assembledPos p)) 1 - coord ax (assembledPos p)\<bar>
           \<le> (\<bar>coord ax (assembledPos p)\<bar> +
               2 * \<bar>coord ax (assembledPos p) - coord ax (explodedPos p)\<bar>) / 2 ^ 53"
proof (intro conjI)
  have "easing (localP p g1) \<le> easing (localP p g2)" "easing (localP p g2) \<le> 1"
    using localP_range [of p g1] localP_range [of p g2] localP_mono [OF assms]
    by (simp_all add: easing_range easing_mono)
  from lerp_between [OF this]
  show "between (coord ax (framePosition p g1))
           (lerp (coord ax (explodedPos p)) (coord ax (assembledPos p)) 1)
           (coord ax (framePosition p g2))"
    by (simp add: framePosition_coord)
next
  have "0 \<le> easing (localP p g)" "easing (localP p g) \<le> 1"
    using localP_range [of p g] by (simp_all add: easing_range)
  from lerp_between [OF this]
  show "between (lerp (coord ax (explodedPos p)) (coord ax (assembledPos p)) 0)
           (lerp (coord ax (explodedPos p)) (coord ax (assembledPos p)) 1)
           (coord ax (framePosition p g))"
    by (simp add: framePosition_coord)
next
  show "lerp (coord ax (explodedPos p)) (coord ax (assembledPos p)) 0 =
           rnd64 (coord ax (explodedPos p))"
    by (rule lerp_zero)
next
  show "\<bar>lerp (coord ax (explodedPos p)) (coord ax (assembledPos p)) 1 - coord ax (assembledPos p)\<bar>
           \<le> (\<bar>coord ax (assembledPos p)\<bar> +
               2 * \<bar>coord ax (assembledPos p) - coord ax (explodedPos p)\<bar>) / 2 ^ 53"
    by (rule lerp_one_error)
qed

theorem motion_monotone_no_overshoot_witness:
  "0 < duration (last windowParts) \<and> (0.6::real) \<le> 0.8 \<and>
   between (coord Z (framePosition (last windowParts) 0.6))
           (lerp (coord Z (explodedPos (last windowParts))) (coord Z (assembledPos (last windowParts))) 1)
           (coord Z (framePosition (last windowParts) 0.8)) \<and>
   between (lerp (coord Z (explodedPos (last windowParts))) (coord Z (assembledPos (last windowParts))) 0)
           (lerp (coord Z (explodedPos (last windowParts))) (coord Z (assembledPos (last windowParts))) 1)
           (coord Z (framePosition (last windowParts) 0.7))"
proof -
  have h: "0 < duration (last windowParts)" "(0.6::real) \<le> 0.8"
    by (simp_all add: glass_fields)
  from motion_monotone_no_overshoot [OF h, of Z "0.7"] h show ?thesis by blast
qed

subsection \<open>The timeline controller\<close>

lemma playingState_value:
  "playingState =
     \<lparr>isPlaying = True, uiProgress = 0, speed = 0.8, progressRef = 0,
      requestRef = True, lastTimeRef = Some 1000\<rparr>"
  by (simp add: playingState_def playingEffect_def handlePlayPause_def initialState_def)

lemma animate_speed: "speed (animate time s) = speed s"
  by (simp add: animate_def Let_def split: option.splits)

lemma animate_step:
  assumes "progressRef s \<le> 1" "0 \<le> speed s" "nonNegativeElapsed s [time]"
  shows "progressRef s \<le> progressRef (animate time s) \<and> progressRef (animate time s) \<le> 1"
proof (cases "lastTimeRef s")
  case None
  with assms show ?thesis by (simp add: animate_def)
next
  case (Some l)
  with assms have "0 \<le> (time - l) / 1000 * speed s" by simp
  with Some assms(1) show ?thesis by (simp add: animate_def Let_def)
qed

lemma animate_at_one:
  assumes "progressRef s = 1" "lastTimeRef s = Some l"
  shows "progressRef (animate time s) = 1 \<and> \<not> isPlaying (animate time s) \<and>
         \<not> requestRef (animate time s) \<and> lastTimeRef (animate time s) = Some l"
  using assms by (simp add: animate_def Let_def)

text \<open>The frame that takes the progress to 1 goes through the first branch: it
  leaves \<^verbatim>\<open>isPlaying\<close> as it is and requests another frame. The pause is made
  by the next frame, which finds the progress at 1.\<close>

lemma animate_reaching_one:
  assumes "progressRef s < 1" "lastTimeRef s = Some l"
  shows "isPlaying (animate time s) = isPlaying s \<and> requestRef (animate time s)"
  using assms by (simp add: animate_def Let_def)

text \<open>A run splits at any point into the run up to there and the run from the
  state reached there.\<close>

lemma animateAll_append:
  "animateAll (ts1 @ ts2) s = animateAll ts1 s @ animateAll ts2 (last (s # animateAll ts1 s))"
  by (induction ts1 arbitrary: s) simp_all

lemma run_bounded:
  "progressRef s \<le> 1 \<Longrightarrow> 0 \<le> speed s \<Longrightarrow> nonNegativeElapsed s ts \<Longrightarrow>
     sorted (map progressRef (s # animateAll ts s)) \<and>
     (\<forall>s' \<in> set (s # animateAll ts s). progressRef s' \<le> 1)"
proof (induction ts arbitrary: s)
  case Nil
  then show ?case by simp
next
  case (Cons time rest)
  from Cons.prems have el: "nonNegativeElapsed s [time]" by simp
  note st = animate_step [OF Cons.prems(1,2) el]
  from Cons.prems have "nonNegativeElapsed (animate time s) rest" by simp
  with Cons.IH [of "animate time s"] st Cons.prems(2)
  have ih: "sorted (map progressRef (animate time s # animateAll rest (animate time s)))"
    "\<forall>s' \<in> set (animate time s # animateAll rest (animate time s)). progressRef s' \<le> 1"
    by (simp_all add: animate_speed)
  from ih(1) st have "\<forall>x \<in> set (map progressRef (animate time s # animateAll rest (animate time s))).
      progressRef s \<le> x"
    by (auto simp add: order_trans)
  with ih Cons.prems(1) show ?case by simp
qed

lemma run_at_one:
  "progressRef s = 1 \<Longrightarrow> lastTimeRef s = Some l \<Longrightarrow>
     \<forall>s' \<in> set (animateAll ts s). progressRef s' = 1 \<and> \<not> isPlaying s' \<and> \<not> requestRef s'"
proof (induction ts arbitrary: s)
  case Nil
  then show ?case by simp
next
  case (Cons time rest)
  note a = animate_at_one [OF Cons.prems, of time]
  with Cons.IH [of "animate time s"] show ?case by simp
qed

text \<open>
  Claim C2 as stated fails in one point: the frame that brings the progress to
  exactly 1 does not pause the controller. Play is pressed in the initial state
  at \<^verbatim>\<open>performance.now() = 1000\<close> and frames arrive at 2000, 3000 and 5000; the
  third one brings the progress to 1, and after it \<^verbatim>\<open>isPlaying\<close> is still true
  and another frame is requested.
\<close>

theorem reaching_one_keeps_playing:
  "progressRef (animate 3000 (animate 2000 playingState)) < 1 \<and>
   progressRef (animate 5000 (animate 3000 (animate 2000 playingState))) = 1 \<and>
   isPlaying (animate 5000 (animate 3000 (animate 2000 playingState))) \<and>
   requestRef (animate 5000 (animate 3000 (animate 2000 playingState)))"
  by (simp add: playingState_value animate_def Let_def)

text \<open>
  Claim C2, amended. From a progress of at most 1 (in particular from any
  progress in the unit interval), with a non-negative speed, every run of
  frames whose elapsed times are non-negative gives a non-decreasing sequence
  of progress values, all at most 1. A frame that starts below 1, also the one
  that brings the progress to exactly 1, leaves \<^verbatim>\<open>isPlaying\<close> as it is and
  requests another frame. The first frame that finds the progress at exactly 1
  pauses the controller (\<^verbatim>\<open>isPlaying\<close> is false, no further frame is
  requested), and every further frame leaves the progress at 1. The state
  \<open>s\<close> is any state of a running loop, where the last timestamp is set, so
  the last two statements apply at every point of a run.
\<close>

theorem tick_progress_monotone_bounded:
  assumes "progressRef s \<le> 1" "0 \<le> speed s" "nonNegativeElapsed s ts"
  shows "sorted (map progressRef (s # animateAll ts s)) \<and>
         (\<forall>s' \<in> set (s # animateAll ts s). progressRef s' \<le> 1) \<and>
         (progressRef s < 1 \<and> lastTimeRef s \<noteq> None \<longrightarrow>
            isPlaying (animate time s) = isPlaying s \<and> requestRef (animate time s)) \<and>
         (progressRef s = 1 \<and> lastTimeRef s \<noteq> None \<longrightarrow>
            (\<forall>s' \<in> set (animateAll ts s).
               progressRef s' = 1 \<and> \<not> isPlaying s' \<and> \<not> requestRef s'))"
  using run_bounded [OF assms] run_at_one [of s _ ts] animate_reaching_one [of s _ time]
  by auto

theorem tick_progress_monotone_bounded_witness:
  "progressRef playingState \<le> 1 \<and> 0 \<le> speed playingState \<and>
   nonNegativeElapsed playingState [2000, 3000, 5000, 5016] \<and>
   sorted (map progressRef (playingState # animateAll [2000, 3000, 5000, 5016] playingState)) \<and>
   map progressRef (animateAll [2000, 3000, 5000, 5016] playingState) = [4 / 15, 8 / 15, 1, 1] \<and>
   map isPlaying (animateAll [2000, 3000, 5000, 5016] playingState) = [True, True, True, False] \<and>
   progressRef playingState < 1 \<and> lastTimeRef playingState \<noteq> None \<and>
   isPlaying (animate 2000 playingState) = isPlaying playingState \<and>
   requestRef (animate 2000 playingState) \<and>
   progressRef (playingState\<lparr>progressRef := 1\<rparr>) = 1 \<and>
   lastTimeRef (playingState\<lparr>progressRef := 1\<rparr>) \<noteq> None \<and>
   nonNegativeElapsed (playingState\<lparr>progressRef := 1\<rparr>) [1016, 1032] \<and>
   list_all (\<lambda>s'. progressRef s' = 1 \<and> \<not> isPlaying s' \<and> \<not> requestRef s')
     (animateAll [1016, 1032] (playingState\<lparr>progressRef := 1\<rparr>))"
proof -
  have h: "progressRef playingState \<le> 1" "0 \<le> speed playingState"
    "nonNegativeElapsed playingState [2000, 3000, 5000, 5016]"
    by (simp_all add: playingState_value animate_def Let_def)
  have v: "map progressRef (animateAll [2000, 3000, 5000, 5016] playingState) = [4 / 15, 8 / 15, 1, 1]"
    "map isPlaying (animateAll [2000, 3000, 5000, 5016] playingState) = [True, True, True, False]"
    by (simp_all add: playingState_value animate_def Let_def)
  have below: "progressRef playingState < 1" "lastTimeRef playingState \<noteq> None"
    by (simp_all add: playingState_value)
  have one: "progressRef (playingState\<lparr>progressRef := 1\<rparr>) = 1"
    "lastTimeRef (playingState\<lparr>progressRef := 1\<rparr>) \<noteq> None"
    by (simp_all add: playingState_value)
  have h1: "progressRef (playingState\<lparr>progressRef := 1\<rparr>) \<le> 1"
    "0 \<le> speed (playingState\<lparr>progressRef := 1\<rparr>)"
    "nonNegativeElapsed (playingState\<lparr>progressRef := 1\<rparr>) [1016, 1032]"
    by (simp_all add: playingState_value animate_def Let_def)
  note t = tick_progress_monotone_bounded [OF h, of 2000]
  from t have s: "sorted (map progressRef (playingState # animateAll [2000, 3000, 5000, 5016] playingState))"
    by (rule conjunct1)
  from t below have k: "isPlaying (animate 2000 playingState) = isPlaying playingState"
    "requestRef (animate 2000 playingState)"
    by blast+
  from tick_progress_monotone_bounded [OF h1] one
  have "\<forall>s' \<in> set (animateAll [1016, 1032] (playingState\<lparr>progressRef := 1\<rparr>)).
          progressRef s' = 1 \<and> \<not> isPlaying s' \<and> \<not> requestRef s'"
    by blast
  then have p: "list_all (\<lambda>s'. progressRef s' = 1 \<and> \<not> isPlaying s' \<and> \<not> requestRef s')
     (animateAll [1016, 1032] (playingState\<lparr>progressRef := 1\<rparr>))"
    unfolding list_all_iff .
  from h v below k one h1(3) s p show ?thesis by blast
qed

text \<open>
  Claim C3 as stated fails: \<^verbatim>\<open>handleSeek\<close> writes its argument divided by 100
  into the progress without clamping, so seeking to 150 gives the progress 1.5
  where the clamp would give 1.
\<close>

theorem seek_out_of_range_not_clamped:
  "progressRef (handleSeek 150 initialState) = 3 / 2 \<and>
   clamp (150 / 100) 0 1 = 1 \<and>
   \<not> progressRef (handleSeek 150 initialState) \<le> 1"
  by (simp add: handleSeek_def initialState_def clamp_def)

text \<open>
  Claim C3, amended. Seek with any argument sets the progress to the argument
  divided by 100, exactly and without clamping; for an argument between 0 and
  100, the range of the slider that calls it, this is the clamped value and
  lies in the unit interval. From a progress in the unit interval, reset gives
  0, play/pause keeps the progress in the unit interval, and so does a frame
  whose elapsed time and speed are non-negative.
\<close>

theorem progress_range_after_operations:
  assumes "0 \<le> progressRef s" "progressRef s \<le> 1"
  shows "progressRef (handleSeek val s) = val / 100 \<and>
         (0 \<le> val \<and> val \<le> 100 \<longrightarrow>
            progressRef (handleSeek val s) = clamp (val / 100) 0 1 \<and>
            0 \<le> progressRef (handleSeek val s) \<and> progressRef (handleSeek val s) \<le> 1) \<and>
         progressRef (handleReset s) = 0 \<and>
         0 \<le> progressRef (handlePlayPause s) \<and> progressRef (handlePlayPause s) \<le> 1 \<and>
         (0 \<le> speed s \<and> nonNegativeElapsed s [time] \<longrightarrow>
            0 \<le> progressRef (animate time s) \<and> progressRef (animate time s) \<le> 1)"
proof -
  have seek: "progressRef (handleSeek val s) = val / 100"
    by (simp add: handleSeek_def)
  have inr: "0 \<le> val \<and> val \<le> 100 \<longrightarrow>
            progressRef (handleSeek val s) = clamp (val / 100) 0 1 \<and>
            0 \<le> progressRef (handleSeek val s) \<and> progressRef (handleSeek val s) \<le> 1"
    by (simp add: handleSeek_def clamp_def)
  have reset: "progressRef (handleReset s) = 0"
    by (simp add: handleReset_def)
  have pp: "0 \<le> progressRef (handlePlayPause s) \<and> progressRef (handlePlayPause s) \<le> 1"
    using assms by (simp add: handlePlayPause_def)
  have tick: "0 \<le> speed s \<and> nonNegativeElapsed s [time] \<longrightarrow>
            0 \<le> progressRef (animate time s) \<and> progressRef (animate time s) \<le> 1"
    using animate_step [OF assms(2), of time] assms(1) by auto
  from seek inr reset pp tick show ?thesis by blast
qed

theorem progress_range_after_operations_witness:
  "0 \<le> progressRef playingState \<and> progressRef playingState \<le> 1 \<and>
   (0::real) \<le> 50 \<and> (50::real) \<le> 100 \<and>
   progressRef (handleSeek 50 playingState) = 50 / 100 \<and>
   progressRef (handleSeek 50 playingState) = clamp (50 / 100) 0 1 \<and>
   0 \<le> progressRef (handleSeek 50 playingState) \<and> progressRef (handleSeek 50 playingState) \<le> 1 \<and>
   progressRef (handleReset playingState) = 0 \<and>
   0 \<le> progressRef (handlePlayPause playingState) \<and>
   progressRef (handlePlayPause playingState) \<le> 1 \<and>
   0 \<le> speed playingState \<and> nonNegativeElapsed playingState [2000] \<and>
   0 \<le> progressRef (animate 2000 playingState) \<and> progressRef (animate 2000 playingState) \<le> 1"
  using progress_range_after_operations [of playingState 50 2000]
  by (simp add: playingState_def playingEffect_def handlePlayPause_def initialState_def)

text \<open>
  Claim C8 as stated fails: the elapsed time is not clamped. Play is pressed in
  the initial state at \<^verbatim>\<open>performance.now() = 1000\<close>; a first frame with the
  timestamp 985 has a negative elapsed time and takes the progress from 0 to
  \<open>- 1 / 250\<close>.
\<close>

theorem negative_elapsed_not_clamped:
  "progressRef playingState = 0 \<and> lastTimeRef playingState = Some 1000 \<and>
   (985 - 1000) / 1000 < (0::real) \<and>
   progressRef (animate 985 playingState) = - (1 / 250)"
  by (simp add: playingState_def initialState_def handlePlayPause_def playingEffect_def
      animate_def Let_def)

text \<open>
  Claim C8, amended. A negative elapsed time is not clamped: while the progress
  is below 1, a frame adds the elapsed seconds times the speed divided by 3 also
  when that is negative, so with a positive speed the progress strictly
  decreases.
\<close>

theorem negative_elapsed_decreases_progress:
  assumes "lastTimeRef s = Some lastTime" "(time - lastTime) / 1000 < 0"
    "0 < speed s" "progressRef s < 1"
  shows "progressRef (animate time s) =
           progressRef s + ((time - lastTime) / 1000 * speed s) / 3 \<and>
         progressRef (animate time s) < progressRef s"
proof -
  from assms(2,3) have "(time - lastTime) / 1000 * speed s < 0"
    by (rule mult_neg_pos)
  with assms(1,4) show ?thesis by (simp add: animate_def Let_def)
qed

theorem negative_elapsed_decreases_progress_witness:
  "lastTimeRef playingState = Some 1000 \<and> (985 - 1000) / 1000 < (0::real) \<and>
   0 < speed playingState \<and> progressRef playingState < 1 \<and>
   progressRef (animate 985 playingState) =
     progressRef playingState + ((985 - 1000) / 1000 * speed playingState) / 3 \<and>
   progressRef (animate 985 playingState) < progressRef playingState"
proof -
  have h: "lastTimeRef playingState = Some 1000" "(985 - 1000) / 1000 < (0::real)"
    "0 < speed playingState" "progressRef playingState < 1"
    by (simp_all add: playingState_def playingEffect_def handlePlayPause_def initialState_def)
  from h negative_elapsed_decreases_progress [OF h] show ?thesis by blast
qed

text \<open>
  Claim C9. Play/pause invoked while not playing and with the progress at or
  above 1 sets the progress to 0 and enters the playing state; invoked with the
  progress below 1 it toggles the playing flag and leaves the progress as it is.
\<close>

theorem playPause_rewinds_or_toggles:
  "(\<not> isPlaying s \<and> progressRef s \<ge> 1 \<longrightarrow>
      progressRef (handlePlayPause s) = 0 \<and> isPlaying (handlePlayPause s)) \<and>
   (progressRef s < 1 \<longrightarrow>
      progressRef (handlePlayPause s) = progressRef s \<and>
      isPlaying (handlePlayPause s) = (\<not> isPlaying s))"
  by (simp add: handlePlayPause_def)

theorem playPause_rewinds_or_toggles_witness:
  "\<not> isPlaying (handleSeek 100 initialState) \<and> progressRef (handleSeek 100 initialState) \<ge> 1 \<and>
   progressRef (handlePlayPause (handleSeek 100 initialState)) = 0 \<and>
   isPlaying (handlePlayPause (handleSeek 100 initialState)) \<and>
   progressRef (handlePlayPause (handleSeek 50 initialState)) = 1 / 2 \<and>
   progressRef (handleSeek 50 initialState) < 1 \<and>
   isPlaying (handlePlayPause (handleSeek 50 initialState)) \<and>
   \<not> isPlaying (handlePlayPause (handlePlayPause (handleSeek 50 initialState)))"
  using playPause_rewinds_or_toggles [of "handleSeek 100 initialState"]
        playPause_rewinds_or_toggles [of "handleSeek 50 initialState"]
        playPause_rewinds_or_toggles [of "handlePlayPause (handleSeek 50 initialState)"]
  by (simp add: handleSeek_def initialState_def)

subsection \<open>The generated layout\<close>

text \<open>The source builds the list without an exception: every overwrite finds
  its entry. The result is the rails, the beams, the refined insulation
  panels, the cladding and the window parts, in this order.\<close>

lemma parts_value:
  "parts = Some (railParts @ map beamPart beams @ refinedInsulation @ claddingParts @ windowParts)"
  by (simp add: parts_def refinePanels_def railParts_def beams_def insulationParts_def
      refinedInsulation_def boxPart_def)


lemma parts_glass:
  "\<exists>ps. parts = Some ps \<and> findPart ''glass'' ps = Some (last windowParts)"
  by (simp add: parts_value findPart_def railParts_def beams_def claddingParts_def
      refinedInsulation_def windowParts_def boxPart_def)














text \<open>
  Claim C10. The generated list holds the glass pane, whose delay is 0.55 and
  whose duration is 0.5 (the binary64 values), so its window ends at 1.05,
  past the end of the timeline. At global progress 1 its local progress is
  below 1, within \<open>1 / 2 ^ 53\<close> of 0.9, and its position is not the assembled
  position; for every global progress in the unit interval its local progress
  stays below 1 and it is not at its assembled position.
\<close>

theorem glass_never_assembles:
  "\<exists>ps glass. parts = Some ps \<and> findPart ''glass'' ps = Some glass \<and>
     delay glass = rnd64 0.55 \<and> duration glass = rnd64 0.5 \<and>
     fadd (delay glass) (duration glass) = rnd64 1.05 \<and>
     delay glass + duration glass > 1 \<and>
     localP glass 1 < 1 \<and> \<bar>localP glass 1 - 0.9\<bar> \<le> 1 / 2 ^ 53 \<and>
     framePosition glass 1 \<noteq> assembledPos glass \<and>
     (\<forall>g. 0 \<le> g \<and> g \<le> 1 \<longrightarrow>
        localP glass g < 1 \<and> framePosition glass g \<noteq> assembledPos glass)"
proof -
  define glass where "glass = last windowParts"
  note gf = glass_fields [folded glass_def]
  have d: "delay glass = rnd64 0.55" "duration glass = rnd64 0.5"
    "fadd (delay glass) (duration glass) = rnd64 1.05" "delay glass + duration glass > 1"
    "0 < duration glass"
    by (simp_all add: gf f64)
  have l1: "localP glass 1 = 2026619832316723 / 2251799813685248"
    unfolding glass_def by (rule glass_localP_one)
  have l1': "localP glass 1 < 1" "\<bar>localP glass 1 - 0.9\<bar> \<le> 1 / 2 ^ 53"
    unfolding l1 by simp_all
  have below: "localP glass g < 1 \<and> framePosition glass g \<noteq> assembledPos glass"
    if "g \<le> 1" for g
  proof -
    have le: "localP glass g \<le> localP glass 1"
      using that d(5) by (intro localP_mono)
    then have lt: "localP glass g < 1" using l1'(1) by simp
    have "easing (localP glass g) \<le> easing (localP glass 1)"
      using le localP_range [of glass g] by (intro easing_mono) simp_all
    then have t: "easing (localP glass g) \<le> 2242792614430507 / 2251799813685248"
      by (simp add: l1 glass_easing_one)
    have "lerp (9 / 2) (5404319552844595 / 18014398509481984)
            (2242792614430507 / 2251799813685248)
          \<le> lerp (9 / 2) (5404319552844595 / 18014398509481984) (easing (localP glass g))"
      using t by (intro lerp_mono_down) simp_all
    then have "356685090487743 / 1125899906842624 \<le> coord Z (framePosition glass g)"
      by (simp add: glass_rest framePosition_coord gf)
    then have "coord Z (framePosition glass g) \<noteq> coord Z (assembledPos glass)"
      by (simp add: gf)
    then have "framePosition glass g \<noteq> assembledPos glass" by auto
    with lt show ?thesis by simp
  qed
  from parts_glass obtain ps where "parts = Some ps" "findPart ''glass'' ps = Some glass"
    unfolding glass_def by blast
  with d l1' below [of 1] below show ?thesis
    by (intro exI [of _ ps] exI [of _ glass]) simp
qed

theorem glass_never_assembles_witness:
  "\<exists>ps glass. parts = Some ps \<and> findPart ''glass'' ps = Some glass \<and>
     (0::real) \<le> 1 / 2 \<and> (1 / 2 :: real) \<le> 1 \<and>
     localP glass (1 / 2) < 1 \<and> framePosition glass (1 / 2) \<noteq> assembledPos glass"
proof -
  from glass_never_assembles obtain ps glass where
    "parts = Some ps" "findPart ''glass'' ps = Some glass"
    "\<forall>g. 0 \<le> g \<and> g \<le> 1 \<longrightarrow>
       localP glass g < 1 \<and> framePosition glass g \<noteq> assembledPos glass"
    by blast
  then show ?thesis by (intro exI [of _ ps] exI [of _ glass]) simp
qed

end
